theory Spec2Isabelle
  imports Complex_Main
begin

section \<open>Data model\<close>

text \<open>
  A detection is the per-person dictionary that Phase 1 appends to a frame list
  (\<^verbatim>\<open>person_info\<close> in \<^verbatim>\<open>cv_pipeline.py\<close>): the arbiter's identity merged with the
  bounding box and the detector confidence. Every field is read with \<^verbatim>\<open>dict.get\<close>,
  so every field is optional: \<open>None\<close> stands for an absent key (and, for
  \<^verbatim>\<open>person_id\<close>, \<^verbatim>\<open>bbox\<close> and \<^verbatim>\<open>body_embedding\<close>, also for the Python value \<^verbatim>\<open>None\<close>).
  A bounding box is the detector's tuple of four integer pixel coordinates. A float is
  the real number it denotes (no NaN, no infinity); timestamps are seconds on the real
  line. Coordinates and confidences are taken within the range of doubles: the scores
  below do not model the \<^verbatim>\<open>OverflowError\<close> that Python raises on converting an integer
  beyond that range or on a power that overflows.
\<close>

type_synonym vec = "real list"

record detection =
  person_id :: "int option"
  role :: "string option"
  det_method :: "string option"
  confidence :: "real option"
  bbox :: "(int \<times> int \<times> int \<times> int) option"
  body_embedding :: "vec option"

text \<open>\<^verbatim>\<open>person.get('role', 'stranger')\<close>, \<^verbatim>\<open>person.get('method', 'unknown')\<close> and
  \<^verbatim>\<open>person.get('confidence', 0.0)\<close>.\<close>

definition role_of :: "detection \<Rightarrow> string" where
  "role_of p = (case role p of None \<Rightarrow> ''stranger'' | Some r \<Rightarrow> r)"

definition method_of :: "detection \<Rightarrow> string" where
  "method_of p = (case det_method p of None \<Rightarrow> ''unknown'' | Some m \<Rightarrow> m)"

definition confidence_of :: "detection \<Rightarrow> real" where
  "confidence_of p = (case confidence p of None \<Rightarrow> 0 | Some c \<Rightarrow> c)"

text \<open>Python truthiness of \<^verbatim>\<open>person_id\<close> (\<^verbatim>\<open>if person_id:\<close>): neither \<^verbatim>\<open>None\<close> nor 0.\<close>

definition truthy_id :: "int option \<Rightarrow> bool" where
  "truthy_id pid = (case pid of None \<Rightarrow> False | Some i \<Rightarrow> i \<noteq> 0)"

datatype error = ValueError | ZeroDivisionError | OverflowError | DatabaseError

text \<open>
  Double-precision arithmetic. IEEE 754 defines the sum, difference, product and quotient
  of two doubles as the exact result rounded to a double, and Python converts an integer
  operand and reads a decimal literal in the same way; \<open>rnd\<close> is that rounding, so
  \<^verbatim>\<open>a * b\<close> is \<open>rnd (a * b)\<close> and the literal \<^verbatim>\<open>0.01\<close> is \<open>rnd (1 / 100)\<close>. \<open>overflows x\<close>
  says that the exact value \<open>x\<close> is too large to round to a finite double. \<open>fpow\<close> is
  the power function of the C library behind \<^verbatim>\<open>**\<close>, which need not be correctly
  rounded. The three are parameters of everything that computes with floats; no
  property of them is assumed.
\<close>

record float_arith =
  rnd :: "real \<Rightarrow> real"
  overflows :: "real \<Rightarrow> bool"
  fpow :: "real \<Rightarrow> real \<Rightarrow> real"

section \<open>Phase 1: frame sampler\<close>

text \<open>Python's \<^verbatim>\<open>int(x)\<close> on a float truncates towards zero.\<close>

definition py_int :: "real \<Rightarrow> int" where
  "py_int x = (if x \<ge> 0 then \<lfloor>x\<rfloor> else \<lceil>x\<rceil>)"

text \<open>Python's \<^verbatim>\<open>round(x)\<close>: the nearest integer, a tie going to the even one.\<close>

definition py_round :: "real \<Rightarrow> int" where
  "py_round x =
     (let f = \<lfloor>x\<rfloor>; d = x - of_int f
      in if d < 1 / 2 then f
         else if d > 1 / 2 then f + 1
         else if even f then f else f + 1)"

text \<open>What the video capture reports and yields: whether it opened, the frame rate and
  frame count of the container, and the frames that successive \<^verbatim>\<open>cap.read()\<close> calls
  return until the first failure.\<close>

record 'f video =
  is_opened :: bool
  video_fps :: real
  total_frames :: int
  stream :: "'f list"

text \<open>The stride computed by \<^verbatim>\<open>FrameSampler.get_frames\<close>: \<^verbatim>\<open>int(video_fps / fps)\<close> on the float
  quotient, 30 when a rate is not positive. A quotient that overflows to infinity makes
  \<^verbatim>\<open>int\<close> raise \<^verbatim>\<open>OverflowError\<close>.\<close>

definition skip_step :: "float_arith \<Rightarrow> real \<Rightarrow> real \<Rightarrow> error + int" where
  "skip_step fa vfps fps =
     (if vfps > 0 \<and> fps > 0
      then (if overflows fa (vfps / fps) then Inl OverflowError
            else Inr (py_int (rnd fa (vfps / fps))))
      else Inr 30)"

text \<open>The read loop: \<^verbatim>\<open>frame_count % skip_step\<close> raises \<^verbatim>\<open>ZeroDivisionError\<close> for a zero
  stride as soon as one frame has been read.\<close>

fun sample_loop :: "int \<Rightarrow> nat \<Rightarrow> 'f list \<Rightarrow> 'f list \<Rightarrow> error + 'f list" where
  "sample_loop step frame_count [] frames = Inr frames"
| "sample_loop step frame_count (frame # rest) frames =
     (if step = 0 then Inl ZeroDivisionError
      else sample_loop step (frame_count + 1) rest
             (if int frame_count mod step = 0 then frames @ [frame] else frames))"

text \<open>The duration \<^verbatim>\<open>total_frames / video_fps\<close>, an integer divided by a float.\<close>

definition video_duration_of :: "float_arith \<Rightarrow> 'f video \<Rightarrow> real" where
  "video_duration_of fa v =
     (if video_fps v > 0 then rnd fa (rnd fa (real_of_int (total_frames v)) / video_fps v) else 0)"

text \<open>\<^verbatim>\<open>FrameSampler.get_frames\<close>: the sampled frames and the video duration.\<close>

definition get_frames :: "float_arith \<Rightarrow> 'f video \<Rightarrow> real \<Rightarrow> error + ('f list \<times> real)" where
  "get_frames fa v fps =
     (if \<not> is_opened v then Inr ([], 0)
      else
        (let video_duration = video_duration_of fa v
         in case skip_step fa (video_fps v) fps of
              Inl e \<Rightarrow> Inl e
            | Inr step \<Rightarrow>
                (case sample_loop step 0 (stream v) [] of
                   Inl e \<Rightarrow> Inl e
                 | Inr frames \<Rightarrow> Inr (frames, video_duration))))"

text \<open>The stride in the words of the specification: \<^verbatim>\<open>round\<close> of the same quotient.\<close>

definition spec_stride :: "float_arith \<Rightarrow> real \<Rightarrow> real \<Rightarrow> int" where
  "spec_stride fa source_fps target_fps = py_round (rnd fa (source_fps / target_fps))"

text \<open>The elements of a list at the positions divisible by \<open>k\<close>.\<close>

definition every_nth :: "int \<Rightarrow> 'f list \<Rightarrow> 'f list" where
  "every_nth k xs = map snd (filter (\<lambda>(i, x). int i mod k = 0) (enumerate 0 xs))"

section \<open>Phase 1: identity arbiter and body cache\<close>

text \<open>Rows of \<^verbatim>\<open>persons\<close> and \<^verbatim>\<open>person_faces\<close>, the two tables the arbiter touches.\<close>

record person =
  p_id :: int
  p_name :: string
  p_role :: string
  current_body_embedding :: "vec option"
  body_update_time :: "real option"
  first_seen :: "real option"
  last_seen :: "real option"
  p_notes :: "string option"

record person_face =
  pf_id :: int
  pf_person_id :: int
  pf_embedding :: vec
  source_image :: string

record arbiter_db =
  persons :: "person list"
  person_faces :: "person_face list"

record arbiter =
  face_threshold :: real
  body_threshold :: real
  soft_match_threshold :: real

definition default_arbiter :: arbiter where
  "default_arbiter = \<lparr>face_threshold = 65 / 100, body_threshold = 60 / 100,
      soft_match_threshold = 55 / 100\<rparr>"

text \<open>Where the database lets one call down: the connection or query of each of the
  three match paths, and the cache update or its commit on the two writing paths.\<close>

record faults =
  face_query_fails :: bool
  face_update_fails :: bool
  body_query_fails :: bool
  body_update_fails :: bool
  soft_query_fails :: bool

text \<open>The dictionary returned by \<^verbatim>\<open>identify\<close>.\<close>

record identity =
  id_person_id :: "int option"
  id_role :: string
  id_method :: string
  id_confidence :: real
  id_body_embedding :: "vec option"

text \<open>\<^verbatim>\<open>ORDER BY embedding <=> v LIMIT 1\<close>: a row of greatest similarity; among equals the
  earliest row is taken (SQL leaves that choice open).\<close>

fun nearest :: "('a \<Rightarrow> real) \<Rightarrow> 'a list \<Rightarrow> 'a option" where
  "nearest f [] = None"
| "nearest f (x # xs) =
     (case nearest f xs of
        None \<Rightarrow> Some x
      | Some y \<Rightarrow> if f x < f y then Some y else Some x)"

text \<open>\<^verbatim>\<open>IdentityArbiter._update_body_cache\<close>: the \<^verbatim>\<open>UPDATE persons SET ... WHERE id = %s\<close>.\<close>

definition update_body_cache :: "arbiter_db \<Rightarrow> int \<Rightarrow> vec \<Rightarrow> real \<Rightarrow> arbiter_db" where
  "update_body_cache db pid body_vec timestamp =
     db\<lparr>persons :=
          map (\<lambda>p. if p_id p = pid
                    then p\<lparr>current_body_embedding := Some body_vec,
                           body_update_time := Some timestamp,
                           last_seen := Some timestamp\<rparr>
                    else p) (persons db)\<rparr>"

text \<open>The rows selected by the face query: \<^verbatim>\<open>person_faces\<close> joined with \<^verbatim>\<open>persons\<close>,
  similarity above the face threshold. \<open>sim a b\<close> stands for \<^verbatim>\<open>1 - (a <=> b)\<close>, the cosine
  similarity computed by the store.\<close>

definition face_rows ::
  "(vec \<Rightarrow> vec \<Rightarrow> real) \<Rightarrow> arbiter \<Rightarrow> arbiter_db \<Rightarrow> vec \<Rightarrow> (person_face \<times> person) list" where
  "face_rows sim arb db face_vec =
     filter (\<lambda>(pf, p). sim (pf_embedding pf) face_vec > face_threshold arb)
       (concat (map (\<lambda>pf. map (Pair pf) (filter (\<lambda>p. p_id p = pf_person_id pf) (persons db)))
                    (person_faces db)))"

text \<open>The \<^verbatim>\<open>try\<close> block of \<^verbatim>\<open>IdentityArbiter._match_by_face\<close>, and the method with its
  \<^verbatim>\<open>except Exception\<close>: a failure is logged and the path returns \<^verbatim>\<open>None\<close>; an update that
  was not committed is lost with the connection.\<close>

definition match_by_face_try ::
  "(vec \<Rightarrow> vec \<Rightarrow> real) \<Rightarrow> arbiter \<Rightarrow> faults \<Rightarrow> arbiter_db \<Rightarrow> vec \<Rightarrow> vec option \<Rightarrow> real
     \<Rightarrow> error + (identity option \<times> arbiter_db)" where
  "match_by_face_try sim arb flt db face_vec body_vec timestamp =
     (if face_query_fails flt then Inl DatabaseError
      else
        (case nearest (\<lambda>(pf, p). sim (pf_embedding pf) face_vec) (face_rows sim arb db face_vec) of
           None \<Rightarrow> Inr (None, db)
         | Some (pf, p) \<Rightarrow>
             (let result = \<lparr>id_person_id = Some (pf_person_id pf),
                            id_role = (if p_role p = ''owner'' then ''family'' else p_role p),
                            id_method = ''face'',
                            id_confidence = sim (pf_embedding pf) face_vec,
                            id_body_embedding = body_vec\<rparr>
              in case body_vec of
                   None \<Rightarrow> Inr (Some result, db)
                 | Some bv \<Rightarrow>
                     if face_update_fails flt then Inl DatabaseError
                     else Inr (Some result, update_body_cache db (pf_person_id pf) bv timestamp))))"

definition match_by_face ::
  "(vec \<Rightarrow> vec \<Rightarrow> real) \<Rightarrow> arbiter \<Rightarrow> faults \<Rightarrow> arbiter_db \<Rightarrow> vec \<Rightarrow> vec option \<Rightarrow> real
     \<Rightarrow> identity option \<times> arbiter_db" where
  "match_by_face sim arb flt db face_vec body_vec timestamp =
     (case match_by_face_try sim arb flt db face_vec body_vec timestamp of
        Inl e \<Rightarrow> (None, db)
      | Inr r \<Rightarrow> r)"

text \<open>The rows selected by the two body queries: owners whose cache is set and was
  updated within the last 48 hours, with the similarity in the given range.\<close>

definition body_rows ::
  "(vec \<Rightarrow> vec \<Rightarrow> real) \<Rightarrow> (real \<Rightarrow> bool) \<Rightarrow> arbiter_db \<Rightarrow> vec \<Rightarrow> real \<Rightarrow> person list" where
  "body_rows sim accept db body_vec timestamp =
     (let time_limit = timestamp - 48 * 3600
      in filter (\<lambda>p. p_role p = ''owner''
                      \<and> (case current_body_embedding p of
                            None \<Rightarrow> False
                          | Some e \<Rightarrow>
                              (case body_update_time p of
                                 None \<Rightarrow> False
                               | Some t \<Rightarrow> t \<ge> time_limit \<and> accept (sim e body_vec))))
                (persons db))"

definition body_similarity :: "(vec \<Rightarrow> vec \<Rightarrow> real) \<Rightarrow> vec \<Rightarrow> person \<Rightarrow> real" where
  "body_similarity sim body_vec p =
     (case current_body_embedding p of None \<Rightarrow> 0 | Some e \<Rightarrow> sim e body_vec)"

text \<open>\<^verbatim>\<open>IdentityArbiter._match_by_body\<close>.\<close>

definition match_by_body_try ::
  "(vec \<Rightarrow> vec \<Rightarrow> real) \<Rightarrow> arbiter \<Rightarrow> faults \<Rightarrow> arbiter_db \<Rightarrow> vec \<Rightarrow> real
     \<Rightarrow> error + (identity option \<times> arbiter_db)" where
  "match_by_body_try sim arb flt db body_vec timestamp =
     (if body_query_fails flt then Inl DatabaseError
      else
        (case nearest (body_similarity sim body_vec)
                (body_rows sim (\<lambda>x. x > body_threshold arb) db body_vec timestamp) of
           None \<Rightarrow> Inr (None, db)
         | Some p \<Rightarrow>
             if body_update_fails flt then Inl DatabaseError
             else Inr (Some \<lparr>id_person_id = Some (p_id p), id_role = ''family'',
                             id_method = ''body'',
                             id_confidence = body_similarity sim body_vec p,
                             id_body_embedding = Some body_vec\<rparr>,
                       update_body_cache db (p_id p) body_vec timestamp)))"

definition match_by_body ::
  "(vec \<Rightarrow> vec \<Rightarrow> real) \<Rightarrow> arbiter \<Rightarrow> faults \<Rightarrow> arbiter_db \<Rightarrow> vec \<Rightarrow> real
     \<Rightarrow> identity option \<times> arbiter_db" where
  "match_by_body sim arb flt db body_vec timestamp =
     (case match_by_body_try sim arb flt db body_vec timestamp of
        Inl e \<Rightarrow> (None, db)
      | Inr r \<Rightarrow> r)"

text \<open>\<^verbatim>\<open>IdentityArbiter._soft_match_by_body\<close>: no write.\<close>

definition soft_match_by_body_try ::
  "(vec \<Rightarrow> vec \<Rightarrow> real) \<Rightarrow> arbiter \<Rightarrow> faults \<Rightarrow> arbiter_db \<Rightarrow> vec \<Rightarrow> real
     \<Rightarrow> error + (identity option \<times> arbiter_db)" where
  "soft_match_by_body_try sim arb flt db body_vec timestamp =
     (if soft_query_fails flt then Inl DatabaseError
      else
        (case nearest (body_similarity sim body_vec)
                (body_rows sim (\<lambda>x. x > soft_match_threshold arb \<and> x \<le> body_threshold arb)
                   db body_vec timestamp) of
           None \<Rightarrow> Inr (None, db)
         | Some p \<Rightarrow>
             Inr (Some \<lparr>id_person_id = Some (p_id p), id_role = ''suspected_family'',
                        id_method = ''soft_match'',
                        id_confidence = body_similarity sim body_vec p,
                        id_body_embedding = Some body_vec\<rparr>,
                  db)))"

definition soft_match_by_body ::
  "(vec \<Rightarrow> vec \<Rightarrow> real) \<Rightarrow> arbiter \<Rightarrow> faults \<Rightarrow> arbiter_db \<Rightarrow> vec \<Rightarrow> real
     \<Rightarrow> identity option \<times> arbiter_db" where
  "soft_match_by_body sim arb flt db body_vec timestamp =
     (case soft_match_by_body_try sim arb flt db body_vec timestamp of
        Inl e \<Rightarrow> (None, db)
      | Inr r \<Rightarrow> r)"

text \<open>The result of a miss.\<close>

definition stranger_result :: "vec option \<Rightarrow> identity" where
  "stranger_result body_vec =
     \<lparr>id_person_id = None, id_role = ''stranger'', id_method = ''new'', id_confidence = 0,
      id_body_embedding = body_vec\<rparr>"

text \<open>\<^verbatim>\<open>IdentityArbiter.identify\<close>: the identity and the database after the call. Every
  exception of a path is caught inside the path, so the result type has no error.\<close>

definition identify ::
  "(vec \<Rightarrow> vec \<Rightarrow> real) \<Rightarrow> arbiter \<Rightarrow> faults \<Rightarrow> arbiter_db \<Rightarrow> vec option \<Rightarrow> vec option \<Rightarrow> real
     \<Rightarrow> identity \<times> arbiter_db" where
  "identify sim arb flt db face_vec body_vec timestamp =
     (case (case face_vec of
              None \<Rightarrow> (None, db)
            | Some fv \<Rightarrow> match_by_face sim arb flt db fv body_vec timestamp) of
        (Some result, db1) \<Rightarrow> (result, db1)
      | (None, db1) \<Rightarrow>
          (case body_vec of
             None \<Rightarrow> (stranger_result None, db1)
           | Some bv \<Rightarrow>
               (case match_by_body sim arb flt db1 bv timestamp of
                  (Some result, db2) \<Rightarrow> (result, db2)
                | (None, db2) \<Rightarrow>
                    (case soft_match_by_body sim arb flt db2 bv timestamp of
                       (Some soft_result, db3) \<Rightarrow> (soft_result, db3)
                     | (None, db3) \<Rightarrow> (stranger_result (Some bv), db3)))))"

text \<open>A person row with its three cache columns blanked: what \<^verbatim>\<open>identify\<close> must leave
  alone.\<close>

definition outside_cache :: "person \<Rightarrow> person" where
  "outside_cache p = p\<lparr>current_body_embedding := None, body_update_time := None, last_seen := None\<rparr>"

section \<open>Phase 2: event fusion\<close>

text \<open>A \<^verbatim>\<open>Clip_Obj\<close> as produced by \<^verbatim>\<open>ResultBuffer.create_clip_obj\<close>; \<open>people_detected\<close>
  is the list of per-frame detection lists.\<close>

record clip =
  time :: real
  cam :: string
  people_detected :: "detection list list"
  video_duration :: "real option"

subsection \<open>Fusion policy\<close>

record fusion_policy =
  time_threshold :: int

definition default_policy :: fusion_policy where
  "default_policy = \<lparr>time_threshold = 60\<rparr>"

text \<open>\<^verbatim>\<open>FusionPolicy._check_time_rule\<close>.\<close>

definition check_time_rule :: "fusion_policy \<Rightarrow> clip \<Rightarrow> clip \<Rightarrow> bool" where
  "check_time_rule pol last_clip current_clip =
     (let time_diff = time current_clip - time last_clip
      in if time_diff < 0 then False
         else time_diff < real_of_int (time_threshold pol))"

record people_set =
  person_ids :: "int set"
  all_strangers :: bool
  has_family :: bool
  has_stranger :: bool

text \<open>\<^verbatim>\<open>FusionPolicy._extract_people_set\<close>: the body of the inner loop on the accumulators
  (person_ids, has_family, has_stranger), then the two nested loops.\<close>

definition scan_person :: "detection \<Rightarrow> int set \<times> bool \<times> bool \<Rightarrow> int set \<times> bool \<times> bool" where
  "scan_person person acc =
     (case acc of (ids, hf, hs) \<Rightarrow>
        (let ids' = (case person_id person of
                       None \<Rightarrow> ids
                     | Some i \<Rightarrow> if i \<noteq> 0 then insert i ids else ids)
         in if role_of person = ''family'' then (ids', True, hs)
            else if role_of person = ''stranger'' then (ids', hf, True)
            else (ids', hf, hs)))"

definition extract_people_set :: "clip \<Rightarrow> people_set" where
  "extract_people_set c =
     (case fold (\<lambda>frame_people acc. fold scan_person frame_people acc)
             (people_detected c) ({}, False, False) of
        (ids, hf, hs) \<Rightarrow>
          \<lparr>person_ids = ids, all_strangers = (hs \<and> \<not> hf), has_family = hf, has_stranger = hs\<rparr>)"

text \<open>\<^verbatim>\<open>FusionPolicy._check_identity_rule\<close>.\<close>

definition check_identity_rule :: "clip \<Rightarrow> clip \<Rightarrow> bool" where
  "check_identity_rule last_clip current_clip =
     (let last_people = extract_people_set last_clip;
          current_people = extract_people_set current_clip
      in if person_ids last_people \<inter> person_ids current_people \<noteq> {} then True
         else
           (let time_diff = time current_clip - time last_clip
            in if all_strangers last_people \<and> all_strangers current_people \<and> time_diff < 10
               then True
               else if time_diff < 5 \<and>
                       ((has_family last_people \<and> has_stranger current_people) \<or>
                        (has_stranger last_people \<and> has_family current_people))
               then True
               else False))"

text \<open>\<^verbatim>\<open>FusionPolicy.is_connected\<close>.\<close>

definition is_connected :: "fusion_policy \<Rightarrow> clip \<Rightarrow> clip \<Rightarrow> bool" where
  "is_connected pol last_clip current_clip =
     (let time_connected = check_time_rule pol last_clip current_clip;
          identity_connected = check_identity_rule last_clip current_clip
      in time_connected \<and> identity_connected)"

text \<open>Set-level reading of a clip, used to state what the loops compute.\<close>

definition detections_of :: "clip \<Rightarrow> detection list" where
  "detections_of c = concat (people_detected c)"

definition clip_has_role :: "string \<Rightarrow> clip \<Rightarrow> bool" where
  "clip_has_role r c = (\<exists>d \<in> set (detections_of c). role_of d = r)"

definition resolved_ids :: "clip \<Rightarrow> int set" where
  "resolved_ids c = {i. i \<noteq> 0 \<and> (\<exists>d \<in> set (detections_of c). person_id d = Some i)}"

text \<open>The connection rule in the words of the specification: the time rule with the
  default bound of 60 seconds, and the identity rule (a) shared resolved person id,
  (b) both clips only strangers and gap below 10 s, (c) one clip only family, the other
  only strangers, gap below 5 s.\<close>

definition spec_only_role :: "string \<Rightarrow> clip \<Rightarrow> bool" where
  "spec_only_role r c = (detections_of c \<noteq> [] \<and> list_all (\<lambda>d. role_of d = r) (detections_of c))"

definition spec_person_ids :: "clip \<Rightarrow> int set" where
  "spec_person_ids c = set (List.map_filter person_id (detections_of c))"

definition spec_identity_rule :: "clip \<Rightarrow> clip \<Rightarrow> bool" where
  "spec_identity_rule last_clip current_clip =
     (let gap = time current_clip - time last_clip
      in spec_person_ids last_clip \<inter> spec_person_ids current_clip \<noteq> {}
         \<or> (spec_only_role ''stranger'' last_clip \<and> spec_only_role ''stranger'' current_clip
             \<and> gap < 10)
         \<or> (((spec_only_role ''family'' last_clip \<and> spec_only_role ''stranger'' current_clip)
              \<or> (spec_only_role ''stranger'' last_clip \<and> spec_only_role ''family'' current_clip))
             \<and> gap < 5))"

definition spec_connected :: "clip \<Rightarrow> clip \<Rightarrow> bool" where
  "spec_connected last_clip current_clip =
     (0 \<le> time current_clip - time last_clip \<and> time current_clip - time last_clip < 60
      \<and> spec_identity_rule last_clip current_clip)"

subsection \<open>Stream sorter\<close>

text \<open>A raw input dictionary: a field is \<open>None\<close> when the key is missing or its value
  has the wrong type (\<^verbatim>\<open>time\<close> not a datetime, \<^verbatim>\<open>people_detected\<close> not a list).\<close>

record raw_clip =
  raw_time :: "real option"
  raw_cam :: "string option"
  raw_people_detected :: "detection list list option"
  raw_video_duration :: "real option"

text \<open>\<^verbatim>\<open>StreamSorter._is_valid_clip\<close>.\<close>

definition is_valid_clip :: "raw_clip \<Rightarrow> bool" where
  "is_valid_clip c = (raw_time c \<noteq> None \<and> raw_cam c \<noteq> None \<and> raw_people_detected c \<noteq> None)"

fun valid_clips :: "raw_clip list \<Rightarrow> clip list" where
  "valid_clips [] = []"
| "valid_clips (c # cs) =
     (case (raw_time c, raw_cam c, raw_people_detected c) of
        (Some t, Some cm, Some pd) \<Rightarrow>
          \<lparr>time = t, cam = cm, people_detected = pd, video_duration = raw_video_duration c\<rparr>
            # valid_clips cs
      | _ \<Rightarrow> valid_clips cs)"

text \<open>\<^verbatim>\<open>StreamSorter.sort_and_validate\<close>: drop the invalid clips, then
  \<^verbatim>\<open>sorted(valid_clips, key=lambda x: x['time'])\<close>, a stable sort.\<close>

definition sort_and_validate :: "raw_clip list \<Rightarrow> clip list" where
  "sort_and_validate clip_objs = (if clip_objs = [] then [] else sort_key time (valid_clips clip_objs))"

subsection \<open>Session manager\<close>

text \<open>\<^verbatim>\<open>SessionManager.process_clip\<close> on the buffer: the completed events and the new
  buffer. \<^verbatim>\<open>SessionManager.finalize\<close> returns the buffer as the last event.\<close>

definition process_clip :: "fusion_policy \<Rightarrow> clip list \<Rightarrow> clip \<Rightarrow> clip list list \<times> clip list" where
  "process_clip pol current_buffer c =
     (if current_buffer = [] then ([], [c])
      else if is_connected pol (last current_buffer) c then ([], current_buffer @ [c])
      else ([current_buffer], [c]))"

definition finalize :: "clip list \<Rightarrow> clip list list" where
  "finalize current_buffer = (if current_buffer = [] then [] else [current_buffer])"

text \<open>The grouping loop of \<^verbatim>\<open>Event_Fusion_Pipeline.run\<close>: the session manager is reset,
  every sorted clip is processed, completed events are collected in order, and the
  final buffer is appended.\<close>

fun group_loop :: "fusion_policy \<Rightarrow> clip list \<Rightarrow> clip list list \<times> clip list \<Rightarrow> clip list list \<times> clip list" where
  "group_loop pol [] st = st"
| "group_loop pol (c # cs) (event_clips_list, current_buffer) =
     (case process_clip pol current_buffer c of
        (completed_events, buffer') \<Rightarrow>
          group_loop pol cs (event_clips_list @ completed_events, buffer'))"

definition group_events :: "fusion_policy \<Rightarrow> clip list \<Rightarrow> clip list list" where
  "group_events pol sorted_clips =
     (case group_loop pol sorted_clips ([], []) of
        (event_clips_list, current_buffer) \<Rightarrow> event_clips_list @ finalize current_buffer)"

subsection \<open>Event aggregator\<close>

text \<open>\<^verbatim>\<open>EventAggregator._calculate_detection_score\<close>, the score of Phase D, operation by
  operation: \<^verbatim>\<open>score = 0.0\<close>, \<^verbatim>\<open>score += 100\<close> (or 50), \<^verbatim>\<open>score += confidence * 10\<close>,
  \<^verbatim>\<open>score += area * 0.01\<close> with the integer area of the box.\<close>

definition calculate_detection_score :: "float_arith \<Rightarrow> detection \<Rightarrow> real" where
  "calculate_detection_score fa person =
     (let score0 = (if method_of person = ''face'' then rnd fa (0 + 100)
                    else if method_of person = ''body'' then rnd fa (0 + 50)
                    else 0);
          score1 = rnd fa (score0 + rnd fa (confidence_of person * 10))
      in case bbox person of
           None \<Rightarrow> score1
         | Some (x1, y1, x2, y2) \<Rightarrow>
             (let area = (x2 - x1) * (y2 - y1)
              in rnd fa (score1 + rnd fa (rnd fa (real_of_int area) * rnd fa (1 / 100)))))"

record keyframe =
  kf_bbox :: "(int \<times> int \<times> int \<times> int) option"
  kf_confidence :: real
  kf_method :: string
  kf_frame_idx :: nat
  kf_clip_time :: real
  kf_cam :: string

definition keyframe_of :: "clip \<Rightarrow> nat \<Rightarrow> detection \<Rightarrow> keyframe" where
  "keyframe_of c frame_idx person =
     \<lparr>kf_bbox = bbox person, kf_confidence = confidence_of person, kf_method = method_of person,
      kf_frame_idx = frame_idx, kf_clip_time = time c, kf_cam = cam c\<rparr>"

text \<open>\<^verbatim>\<open>EventAggregator._select_keyframes\<close> for one person id: the body of the innermost
  loop on (best_score, best_detection), and the three nested loops over clips, enumerated
  frames and persons, started at (-1, None).\<close>

definition keyframe_step ::
  "float_arith \<Rightarrow> int \<Rightarrow> clip \<Rightarrow> nat \<Rightarrow> detection \<Rightarrow> real \<times> keyframe option
     \<Rightarrow> real \<times> keyframe option" where
  "keyframe_step fa pid c frame_idx person acc =
     (case acc of (best_score, best_detection) \<Rightarrow>
        if person_id person \<noteq> Some pid then (best_score, best_detection)
        else
          (let score = calculate_detection_score fa person
           in if score > best_score then (score, Some (keyframe_of c frame_idx person))
              else (best_score, best_detection)))"

definition best_keyframe :: "float_arith \<Rightarrow> int \<Rightarrow> clip list \<Rightarrow> keyframe option" where
  "best_keyframe fa pid cs =
     snd (fold (\<lambda>c acc.
                  fold (\<lambda>(frame_idx, frame_people) acc'.
                          fold (keyframe_step fa pid c frame_idx) frame_people acc')
                       (enumerate 0 (people_detected c)) acc)
               cs (- 1, None))"

definition select_keyframes :: "float_arith \<Rightarrow> clip list \<Rightarrow> int set \<Rightarrow> int \<rightharpoonup> keyframe" where
  "select_keyframes fa cs people_ids =
     (\<lambda>pid. if pid \<in> people_ids then best_keyframe fa pid cs else None)"

text \<open>The person ids collected by \<^verbatim>\<open>EventAggregator._extract_people_info\<close> (and again by
  \<^verbatim>\<open>IdentityRefiner._reaggregate_people_info\<close>): every truthy \<^verbatim>\<open>person_id\<close>.\<close>

definition extract_people_ids :: "clip list \<Rightarrow> int set" where
  "extract_people_ids cs =
     fold (\<lambda>c acc.
             fold (\<lambda>frame_people acc'.
                     fold (\<lambda>person ids. case person_id person of
                                            None \<Rightarrow> ids
                                          | Some i \<Rightarrow> if i \<noteq> 0 then insert i ids else ids)
                          frame_people acc')
                  (people_detected c) acc)
          cs {}"

text \<open>A \<^verbatim>\<open>Global_Event\<close>. The per-person \<^verbatim>\<open>people_info\<close> dictionary and the prompt text
  added by the context builder are not modelled.\<close>

record event =
  start_time :: real
  end_time :: real
  duration :: real
  cameras :: "string set"
  people :: "int set"
  clips :: "clip list"
  keyframes :: "int \<rightharpoonup> keyframe"
  clip_count :: nat

text \<open>\<^verbatim>\<open>EventAggregator.pack\<close>: \<^verbatim>\<open>None\<close> for an empty group; the start is the time of
  \<^verbatim>\<open>clips[0]\<close>, the end the time of \<^verbatim>\<open>clips[-1]\<close>, the duration the longest truthy video
  duration or else end minus start as \<^verbatim>\<open>total_seconds()\<close> returns it.\<close>

definition pack :: "float_arith \<Rightarrow> clip list \<Rightarrow> event option" where
  "pack fa cs =
     (case cs of
        [] \<Rightarrow> None
      | c0 # _ \<Rightarrow>
          (let start_time = time c0;
               end_time = time (last cs);
               video_durations =
                 List.map_filter (\<lambda>c. case video_duration c of
                                          None \<Rightarrow> None
                                        | Some d \<Rightarrow> if d \<noteq> 0 then Some d else None) cs;
               duration = (case video_durations of
                             [] \<Rightarrow> rnd fa (end_time - start_time)
                           | d # ds \<Rightarrow> fold max ds d);
               people_ids = extract_people_ids cs
           in Some \<lparr>start_time = start_time, end_time = end_time, duration = duration,
                    cameras = set (map cam cs), people = people_ids, clips = cs,
                    keyframes = select_keyframes fa cs people_ids, clip_count = length cs\<rparr>))"

subsection \<open>Identity refiner\<close>

text \<open>\<^verbatim>\<open>IdentityRefiner._analyze_person_appearances\<close>: a dictionary in insertion order,
  keyed by the person id, where \<open>None\<close> is the key \<^verbatim>\<open>'stranger_unknown'\<close>. Of each entry
  only the appearance count and the role set are read by the rules; the other fields
  are not modelled.\<close>

record person_stat =
  appearances :: nat
  roles :: "string set"

fun bump_stats ::
  "int option \<Rightarrow> string \<Rightarrow> (int option \<times> person_stat) list \<Rightarrow> (int option \<times> person_stat) list" where
  "bump_stats k r [] = [(k, \<lparr>appearances = 1, roles = {r}\<rparr>)]"
| "bump_stats k r ((k', st) # rest) =
     (if k' = k
      then (k', st\<lparr>appearances := appearances st + 1, roles := insert r (roles st)\<rparr>) # rest
      else (k', st) # bump_stats k r rest)"

definition analyze_person_appearances :: "clip list \<Rightarrow> (int option \<times> person_stat) list" where
  "analyze_person_appearances cs =
     fold (\<lambda>c acc.
             fold (\<lambda>frame_people acc'.
                     fold (\<lambda>person st. bump_stats (person_id person) (role_of person) st)
                          frame_people acc')
                  (people_detected c) acc)
          cs []"

text \<open>The three rules of \<^verbatim>\<open>IdentityRefiner._refine_clip_identities\<close> for the person at
  index \<open>i\<close> of a frame list. The source mutates the person dictionary in place, so the
  frame list read by rule 3 holds the persons already refined and the current person as
  left by rules 1 and 2. Detections are distinct dictionaries (Phase 1 builds a fresh one
  for every detection), so no other position changes.\<close>

definition rule1 :: "(int option \<times> person_stat) list \<Rightarrow> detection \<Rightarrow> detection" where
  "rule1 person_stats person =
     (if role_of person = ''suspected_family'' \<and> truthy_id (person_id person)
      then (case map_of person_stats (person_id person) of
              None \<Rightarrow> person
            | Some stats \<Rightarrow>
                if appearances stats \<ge> 3
                then person\<lparr>role := Some ''family'', det_method := Some ''refined_from_suspected''\<rparr>
                else person)
      else person)"

definition rule2 :: "(int option \<times> person_stat) list \<Rightarrow> detection \<Rightarrow> detection" where
  "rule2 person_stats person =
     (if role_of person = ''stranger'' \<and> person_id person = None
      then
        (let has_family = list_ex (\<lambda>(pid, stats). pid \<noteq> None \<and>
                             (''family'' \<in> roles stats \<or> ''suspected_family'' \<in> roles stats))
                           person_stats;
             stranger_total_count = (case map_of person_stats None of
                                       None \<Rightarrow> 0
                                     | Some stats \<Rightarrow> appearances stats)
         in if has_family \<and> stranger_total_count \<ge> 3
            then person\<lparr>role := Some ''suspected_family'', det_method := Some ''refined_from_stranger''\<rparr>
            else person)
      else person)"

definition rule3 :: "detection list \<Rightarrow> detection \<Rightarrow> detection" where
  "rule3 frame_people person =
     (if role_of person \<in> set [''suspected_family'', ''stranger'']
      then
        (let has_family_in_clip = list_ex (\<lambda>p. role p = Some ''family'') frame_people
         in if has_family_in_clip \<and> truthy_id (person_id person)
            then person\<lparr>role := Some ''family'', det_method := Some ''refined_from_context''\<rparr>
            else person)
      else person)"

definition refine_person_at :: "(int option \<times> person_stat) list \<Rightarrow> detection list \<Rightarrow> nat \<Rightarrow> detection list" where
  "refine_person_at person_stats frame_people i =
     (let person2 = rule2 person_stats (rule1 person_stats (frame_people ! i));
          frame_people2 = frame_people[i := person2]
      in frame_people2[i := rule3 frame_people2 person2])"

fun refine_frame_loop :: "(int option \<times> person_stat) list \<Rightarrow> nat list \<Rightarrow> detection list \<Rightarrow> detection list" where
  "refine_frame_loop person_stats [] frame_people = frame_people"
| "refine_frame_loop person_stats (i # js) frame_people =
     refine_frame_loop person_stats js (refine_person_at person_stats frame_people i)"

definition refine_frame :: "(int option \<times> person_stat) list \<Rightarrow> detection list \<Rightarrow> detection list" where
  "refine_frame person_stats frame_people =
     refine_frame_loop person_stats [0..<length frame_people] frame_people"

definition refine_clip_identities :: "clip \<Rightarrow> (int option \<times> person_stat) list \<Rightarrow> clip" where
  "refine_clip_identities c person_stats =
     c\<lparr>people_detected := map (refine_frame person_stats) (people_detected c)\<rparr>"

text \<open>What the three rules make of a person whose frame list holds a family detection:
  rules 1 and 2, then the promotion of rule 3 with its family test already passed.\<close>

definition promote_in_family_frame :: "(int option \<times> person_stat) list \<Rightarrow> detection \<Rightarrow> detection" where
  "promote_in_family_frame person_stats p =
     (let p2 = rule2 person_stats (rule1 person_stats p)
      in if role_of p2 \<in> set [''suspected_family'', ''stranger''] \<and> truthy_id (person_id p2)
         then p2\<lparr>role := Some ''family'', det_method := Some ''refined_from_context''\<rparr>
         else p2)"

text \<open>\<^verbatim>\<open>IdentityRefiner.refine_event_identities\<close>.\<close>

definition refine_event_identities :: "event \<Rightarrow> event" where
  "refine_event_identities global_event =
     (if clips global_event = [] then global_event
      else
        (let person_stats = analyze_person_appearances (clips global_event);
             refined_clips = map (\<lambda>c. refine_clip_identities c person_stats) (clips global_event)
         in global_event\<lparr>clips := refined_clips, people := extract_people_ids refined_clips\<rparr>))"

subsection \<open>Pipeline\<close>

text \<open>The aggregation loop of \<^verbatim>\<open>Event_Fusion_Pipeline.run\<close>: pack every group, skip a
  group that does not pack, refine the identities of the others.\<close>

fun aggregate_events :: "float_arith \<Rightarrow> clip list list \<Rightarrow> event list" where
  "aggregate_events fa [] = []"
| "aggregate_events fa (event_clips # rest) =
     (case pack fa event_clips of
        None \<Rightarrow> aggregate_events fa rest
      | Some global_event \<Rightarrow> refine_event_identities global_event # aggregate_events fa rest)"

text \<open>\<^verbatim>\<open>Event_Fusion_Pipeline.run\<close>.\<close>

definition run :: "float_arith \<Rightarrow> fusion_policy \<Rightarrow> raw_clip list \<Rightarrow> event list" where
  "run fa pol raw_clips =
     (if raw_clips = [] then []
      else
        (let sorted_clips = sort_and_validate raw_clips
         in if sorted_clips = [] then []
            else aggregate_events fa (group_events pol sorted_clips)))"

section \<open>Phase 4: quality selector and persister\<close>

text \<open>\<^verbatim>\<open>QualitySelector._calculate_score\<close>, operation by operation: method bonus,
  \<^verbatim>\<open>confidence * 100\<close>, \<^verbatim>\<open>area * 1.0\<close>, and minus \<^verbatim>\<open>distance_from_center * 0.5\<close>, the distance
  of the box centre from the assumed frame centre (320, 240) computed with \<^verbatim>\<open>** 2\<close> and
  \<^verbatim>\<open>** 0.5\<close>.\<close>

definition calculate_score :: "float_arith \<Rightarrow> detection \<Rightarrow> real" where
  "calculate_score fa det =
     (let score0 = (if method_of det = ''face'' then rnd fa (0 + 10000)
                    else if method_of det = ''body'' then rnd fa (0 + 5000)
                    else if method_of det = ''new'' then rnd fa (0 + 0)
                    else 0);
          score1 = rnd fa (score0 + rnd fa (confidence_of det * 100))
      in case bbox det of
           None \<Rightarrow> score1
         | Some (x1, y1, x2, y2) \<Rightarrow>
             (let area = (x2 - x1) * (y2 - y1);
                  score2 = rnd fa (score1 + rnd fa (rnd fa (real_of_int area) * 1));
                  center_x = rnd fa (real_of_int (x1 + x2) / 2);
                  center_y = rnd fa (real_of_int (y1 + y2) / 2);
                  distance_from_center =
                    fpow fa (rnd fa (fpow fa (rnd fa (center_x - 320)) 2
                                      + fpow fa (rnd fa (center_y - 240)) 2))
                            (1 / 2)
              in rnd fa (score2 - rnd fa (distance_from_center * (1 / 2)))))"

text \<open>The score in the words of the specification, in exact arithmetic, for a frame
  centre \<open>(cx, cy)\<close>.\<close>

definition spec_keyframe_score :: "real \<times> real \<Rightarrow> detection \<Rightarrow> real" where
  "spec_keyframe_score centre det =
     (if method_of det = ''face'' then 10000 else 0)
     + (if method_of det = ''body'' then 5000 else 0)
     + 100 * confidence_of det
     + (case bbox det of
          None \<Rightarrow> 0
        | Some (x1, y1, x2, y2) \<Rightarrow>
            real_of_int ((x2 - x1) * (y2 - y1))
            - (1 / 2) * sqrt ((real_of_int (x1 + x2) / 2 - fst centre)\<^sup>2
                              + (real_of_int (y1 + y2) / 2 - snd centre)\<^sup>2))"

text \<open>\<^verbatim>\<open>QualitySelector.select_best\<close>: \<^verbatim>\<open>None\<close> on an empty list, the only element of a
  singleton, otherwise the head of the list of (score, index, detection) triples after
  \<^verbatim>\<open>sort(key=score, reverse=True)\<close>. Python's sort is stable also under \<^verbatim>\<open>reverse=True\<close>,
  which is a stable ascending sort on the negated score.\<close>

definition scored_detections :: "float_arith \<Rightarrow> detection list \<Rightarrow> (real \<times> nat \<times> detection) list" where
  "scored_detections fa ds =
     map (\<lambda>(idx, det). (calculate_score fa det, idx, det)) (enumerate 0 ds)"

definition select_best :: "float_arith \<Rightarrow> detection list \<Rightarrow> detection option" where
  "select_best fa detection_list =
     (case detection_list of
        [] \<Rightarrow> None
      | [d] \<Rightarrow> Some d
      | _ \<Rightarrow> (case sort_key (\<lambda>(s, idx, det). - s) (scored_detections fa detection_list) of
                [] \<Rightarrow> None
              | (best_score, best_idx, best_det) # _ \<Rightarrow> Some best_det))"

text \<open>\<^verbatim>\<open>VectorAdapter.to_pgvector_body\<close>: raises \<^verbatim>\<open>ValueError\<close> unless the vector has
  \<^verbatim>\<open>BODY_DIM\<close> = 2048 components. The textual pgvector form is kept as the vector.\<close>

definition BODY_DIM :: nat where
  "BODY_DIM = 2048"

definition to_pgvector_body :: "vec \<Rightarrow> error + vec" where
  "to_pgvector_body v = (if length v \<noteq> BODY_DIM then Inl ValueError else Inr v)"

text \<open>The method normalisation chain of \<^verbatim>\<open>Persistence_Pipeline.save_event\<close>.\<close>

definition standardize_match_method :: "string \<Rightarrow> string" where
  "standardize_match_method m =
     (if m = ''face'' then ''face''
      else if m = ''body'' then ''body_reid''
      else if m = ''new'' then ''new''
      else if m \<in> set [''refined_from_suspected'', ''refined_from_stranger'',
                        ''refined_from_context''] then ''body_reid_refined''
      else ''unknown'')"

record 'k appearance =
  app_event_id :: nat
  app_person_id :: 'k
  match_method :: string
  body_embedding_pgvector :: vec

text \<open>One iteration of step D of \<^verbatim>\<open>save_event\<close> for a group (person key, detections):
  \<open>None\<close> where the source executes \<^verbatim>\<open>continue\<close> (no best detection, no body
  embedding, or a failed vector conversion), otherwise the appearance row appended to
  the batch. The update of the person's role in the same iteration does not touch the
  appearance and is left out.\<close>

definition appearance_row ::
  "float_arith \<Rightarrow> nat \<Rightarrow> 'k \<Rightarrow> detection list \<Rightarrow> 'k appearance option" where
  "appearance_row fa event_id pid detection_list =
     (case select_best fa detection_list of
        None \<Rightarrow> None
      | Some best_detection \<Rightarrow>
          (case body_embedding best_detection of
             None \<Rightarrow> None
           | Some be \<Rightarrow>
               (case to_pgvector_body be of
                  Inl e \<Rightarrow> None
                | Inr pg \<Rightarrow>
                    Some \<lparr>app_event_id = event_id, app_person_id = pid,
                          match_method = standardize_match_method (method_of best_detection),
                          body_embedding_pgvector = pg\<rparr>)))"

section \<open>Phase 5: daily summary\<close>

text \<open>Rows of \<^verbatim>\<open>event_logs\<close> and \<^verbatim>\<open>daily_summaries\<close>, and the part of the store that
  Phase 5 reads and writes. \<open>summary_id_seq\<close> is the sequence behind the serial id.\<close>

record stored_event =
  ev_id :: nat
  ev_start_time :: real
  camera_location :: string
  llm_description :: string

record daily_summary =
  ds_id :: nat
  summary_date :: string
  summary_text :: string
  total_events :: nat
  created_at :: real
  updated_at :: real

record store =
  event_logs :: "stored_event list"
  daily_summaries :: "daily_summary list"
  summary_id_seq :: nat

text \<open>The circumstances of one run: the clock (\<^verbatim>\<open>CURRENT_TIMESTAMP\<close>), whether each of the
  three database calls raises \<^verbatim>\<open>psycopg2.Error\<close>, the timeline formatter and the insight
  engine (\<^verbatim>\<open>analyze\<close> catches the failures of the LLM itself and always returns a text).\<close>

record run_env =
  now :: real
  get_fails :: bool
  fetch_fails :: bool
  save_fails :: bool
  format_timeline :: "stored_event list \<Rightarrow> string"
  analyze :: "string \<Rightarrow> string \<Rightarrow> string"

text \<open>\<^verbatim>\<open>ArchivePersister.get_summary\<close>: the first row of the date, if any.\<close>

definition get_summary :: "run_env \<Rightarrow> store \<Rightarrow> string \<Rightarrow> error + daily_summary option" where
  "get_summary env s d =
     (if get_fails env then Inl DatabaseError
      else Inr (find (\<lambda>r. summary_date r = d) (daily_summaries s)))"

text \<open>\<^verbatim>\<open>QueryEngine.fetch_events\<close>: the events with \<^verbatim>\<open>DATE(start_time) = target_date\<close>, by
  ascending start time. \<open>date_of\<close> is the calendar date of a timestamp as text.\<close>

definition events_on :: "(real \<Rightarrow> string) \<Rightarrow> store \<Rightarrow> string \<Rightarrow> stored_event list" where
  "events_on date_of s d =
     sort_key ev_start_time (filter (\<lambda>e. date_of (ev_start_time e) = d) (event_logs s))"

definition fetch_events ::
  "(real \<Rightarrow> string) \<Rightarrow> run_env \<Rightarrow> store \<Rightarrow> string \<Rightarrow> error + stored_event list" where
  "fetch_events date_of env s d =
     (if fetch_fails env then Inl DatabaseError else Inr (events_on date_of s d))"

text \<open>\<^verbatim>\<open>ArchivePersister.save\<close>: \<^verbatim>\<open>INSERT ... ON CONFLICT (summary_date) DO UPDATE ...
  RETURNING id\<close>. On conflict the text, the count and \<^verbatim>\<open>updated_at\<close> of the existing row
  are overwritten and its id is returned; otherwise a row with a fresh id is appended.
  A failure rolls back and re-raises.\<close>

definition save :: "run_env \<Rightarrow> store \<Rightarrow> string \<Rightarrow> string \<Rightarrow> nat \<Rightarrow> (error + nat) \<times> store" where
  "save env s d text n =
     (if save_fails env then (Inl DatabaseError, s)
      else
        (case find (\<lambda>r. summary_date r = d) (daily_summaries s) of
           Some existing \<Rightarrow>
             (Inr (ds_id existing),
              s\<lparr>daily_summaries :=
                   map (\<lambda>r. if summary_date r = d
                             then r\<lparr>summary_text := text, total_events := n, updated_at := now env\<rparr>
                             else r) (daily_summaries s),
                 summary_id_seq := summary_id_seq s + 1\<rparr>)
         | None \<Rightarrow>
             (Inr (summary_id_seq s),
              s\<lparr>daily_summaries :=
                   daily_summaries s @
                     [\<lparr>ds_id = summary_id_seq s, summary_date = d, summary_text = text,
                       total_events = n, created_at = now env, updated_at = now env\<rparr>],
                 summary_id_seq := summary_id_seq s + 1\<rparr>)))"

text \<open>\<^verbatim>\<open>Daily_Summary_Pipeline.run_for_date\<close>: the returned record id (\<open>None\<close> when the
  date has no events) or the error raised, and the store after the call.\<close>

definition generate_and_save ::
  "(real \<Rightarrow> string) \<Rightarrow> run_env \<Rightarrow> store \<Rightarrow> string \<Rightarrow> (error + nat option) \<times> store" where
  "generate_and_save date_of env s target_date =
     (case fetch_events date_of env s target_date of
        Inl e \<Rightarrow> (Inl e, s)
      | Inr events \<Rightarrow>
          if events = [] then (Inr None, s)
          else
            (let timeline_text = format_timeline env events;
                 summary = analyze env timeline_text target_date
             in case save env s target_date summary (length events) of
                  (Inl e, s') \<Rightarrow> (Inl e, s')
                | (Inr record_id, s') \<Rightarrow> (Inr (Some record_id), s')))"

definition run_for_date ::
  "(real \<Rightarrow> string) \<Rightarrow> run_env \<Rightarrow> store \<Rightarrow> string \<Rightarrow> bool \<Rightarrow> (error + nat option) \<times> store" where
  "run_for_date date_of env s target_date force_update =
     (if \<not> force_update
      then (case get_summary env s target_date of
              Inl e \<Rightarrow> (Inl e, s)
            | Inr (Some existing_summary) \<Rightarrow> (Inr (Some (ds_id existing_summary)), s)
            | Inr None \<Rightarrow> generate_and_save date_of env s target_date)
      else generate_and_save date_of env s target_date)"

text \<open>The uniqueness of \<^verbatim>\<open>summary_date\<close> that \<^verbatim>\<open>ON CONFLICT (summary_date)\<close> refers to: at
  most one summary row per date.\<close>

definition one_per_date :: "store \<Rightarrow> bool" where
  "one_per_date s = distinct (map summary_date (daily_summaries s))"

section \<open>Phase 6: retrieval and answer synthesis\<close>

text \<open>A retrieved record: its type (\<^verbatim>\<open>summary\<close> or \<^verbatim>\<open>detail\<close>) and, for a detail record, the
  snapshot URL of each appearance once materialised. The remaining columns only feed
  the prompt text.\<close>

record evidence =
  ev_type :: string
  snapshot_urls :: "string option list"

record rag_answer =
  answer_text :: string
  evidence_count :: nat
  has_images :: bool
  images :: "string list"

record 'q full_answer = rag_answer +
  query_obj :: 'q
  retrieved_records :: "evidence list"

text \<open>The collaborators of the pipeline: the query parser, the retrieval engine (both
  catch their own failures), the evidence materialiser, the prompt builders, the text of
  the fallback answer, the LLM gateway, which may raise, and Python's \<^verbatim>\<open>str.strip\<close>.\<close>

record 'q rag_env =
  parse :: "string \<Rightarrow> 'q"
  retrieve :: "'q \<Rightarrow> evidence list"
  materialize :: "evidence list \<Rightarrow> evidence list"
  build_system_prompt :: "'q \<Rightarrow> string"
  build_user_prompt :: "string \<Rightarrow> evidence list \<Rightarrow> 'q \<Rightarrow> string"
  fallback_text :: "string \<Rightarrow> evidence list \<Rightarrow> string"
  llm_generate :: "string \<Rightarrow> string \<Rightarrow> error + string"
  str_strip :: "string \<Rightarrow> string"

text \<open>The fixed text of \<^verbatim>\<open>RAGSynthesisEngine._generate_no_result_answer\<close>, as UTF-8 bytes:
  an apology that no record related to the question was found, followed by three
  suggestions (check the date, confirm the person's name, use other keywords).\<close>

definition no_result_message :: string where
  "no_result_message =
     [
      CHR 0xE6, CHR 0x8A, CHR 0xB1, CHR 0xE6, CHR 0xAD, CHR 0x89, CHR 0xEF, CHR 0xBC, CHR 0x8C,
      CHR 0xE6, CHR 0x88, CHR 0x91, CHR 0xE6, CHR 0xB2, CHR 0xA1, CHR 0xE6, CHR 0x9C, CHR 0x89,
      CHR 0xE6, CHR 0x89, CHR 0xBE, CHR 0xE5, CHR 0x88, CHR 0xB0, CHR 0xE4, CHR 0xB8, CHR 0x8E,
      CHR 0xE6, CHR 0x82, CHR 0xA8, CHR 0xE7, CHR 0x9A, CHR 0x84, CHR 0xE9, CHR 0x97, CHR 0xAE,
      CHR 0xE9, CHR 0xA2, CHR 0x98, CHR 0xE7, CHR 0x9B, CHR 0xB8, CHR 0xE5, CHR 0x85, CHR 0xB3,
      CHR 0xE7, CHR 0x9A, CHR 0x84, CHR 0xE8, CHR 0xAE, CHR 0xB0, CHR 0xE5, CHR 0xBD, CHR 0x95,
      CHR 0xE3, CHR 0x80, CHR 0x82, CHR 0xE8, CHR 0xAF, CHR 0xB7, CHR 0xE5, CHR 0xB0, CHR 0x9D,
      CHR 0xE8, CHR 0xAF, CHR 0x95, CHR 0xE8, CHR 0xB0, CHR 0x83, CHR 0xE6, CHR 0x95, CHR 0xB4,
      CHR 0xE6, CHR 0x9F, CHR 0xA5, CHR 0xE8, CHR 0xAF, CHR 0xA2, CHR 0xE6, CHR 0x9D, CHR 0xA1,
      CHR 0xE4, CHR 0xBB, CHR 0xB6, CHR 0xEF, CHR 0xBC, CHR 0x8C, CHR 0xE6, CHR 0xAF, CHR 0x94,
      CHR 0xE5, CHR 0xA6, CHR 0x82, CHR 0xEF, CHR 0xBC, CHR 0x9A, CHR 0x0A, CHR 0x2D, CHR 0x20,
      CHR 0xE6, CHR 0xA3, CHR 0x80, CHR 0xE6, CHR 0x9F, CHR 0xA5, CHR 0xE6, CHR 0x97, CHR 0xA5,
      CHR 0xE6, CHR 0x9C, CHR 0x9F, CHR 0xE6, CHR 0x98, CHR 0xAF, CHR 0xE5, CHR 0x90, CHR 0xA6,
      CHR 0xE6, CHR 0xAD, CHR 0xA3, CHR 0xE7, CHR 0xA1, CHR 0xAE, CHR 0x0A, CHR 0x2D, CHR 0x20,
      CHR 0xE7, CHR 0xA1, CHR 0xAE, CHR 0xE8, CHR 0xAE, CHR 0xA4, CHR 0xE4, CHR 0xBA, CHR 0xBA,
      CHR 0xE7, CHR 0x89, CHR 0xA9, CHR 0xE5, CHR 0x90, CHR 0x8D, CHR 0xE7, CHR 0xA7, CHR 0xB0,
      CHR 0x0A, CHR 0x2D, CHR 0x20, CHR 0xE4, CHR 0xBD, CHR 0xBF, CHR 0xE7, CHR 0x94, CHR 0xA8,
      CHR 0xE4, CHR 0xB8, CHR 0x8D, CHR 0xE5, CHR 0x90, CHR 0x8C, CHR 0xE7, CHR 0x9A, CHR 0x84,
      CHR 0xE5, CHR 0x85, CHR 0xB3, CHR 0xE9, CHR 0x94, CHR 0xAE, CHR 0xE8, CHR 0xAF, CHR 0x8D]"

definition generate_no_result_answer :: "string \<Rightarrow> rag_answer" where
  "generate_no_result_answer user_query =
     \<lparr>answer_text = no_result_message, evidence_count = 0, has_images = False, images = []\<rparr>"

text \<open>\<^verbatim>\<open>RAGSynthesisEngine._generate_fallback_answer\<close>.\<close>

definition generate_fallback_answer :: "'q rag_env \<Rightarrow> string \<Rightarrow> evidence list \<Rightarrow> rag_answer" where
  "generate_fallback_answer env user_query retrieved_evidence =
     (if retrieved_evidence = [] then generate_no_result_answer user_query
      else \<lparr>answer_text = fallback_text env user_query retrieved_evidence,
             evidence_count = length retrieved_evidence, has_images = False, images = []\<rparr>)"

definition collect_images :: "evidence list \<Rightarrow> string list" where
  "collect_images retrieved_evidence =
     concat (map (\<lambda>e. if ev_type e = ''detail''
                       then List.map_filter (\<lambda>u. case u of
                                                    None \<Rightarrow> None
                                                  | Some url \<Rightarrow> if url \<noteq> [] then Some url else None)
                              (snapshot_urls e)
                       else []) retrieved_evidence)"

text \<open>\<^verbatim>\<open>RAGSynthesisEngine.synthesize\<close>: the answer and the (system prompt, user prompt)
  pairs submitted to the LLM gateway during the call.\<close>

definition synthesize ::
  "'q rag_env \<Rightarrow> string \<Rightarrow> evidence list \<Rightarrow> 'q \<Rightarrow> rag_answer \<times> (string \<times> string) list" where
  "synthesize env user_query retrieved_evidence qo =
     (if retrieved_evidence = [] then (generate_no_result_answer user_query, [])
      else
        (let system_prompt = build_system_prompt env qo;
             user_prompt = build_user_prompt env user_query retrieved_evidence qo
         in case llm_generate env system_prompt user_prompt of
              Inl e \<Rightarrow> (generate_fallback_answer env user_query retrieved_evidence,
                        [(system_prompt, user_prompt)])
            | Inr text \<Rightarrow>
                (let imgs = collect_images retrieved_evidence
                 in (\<lparr>answer_text = str_strip env text, evidence_count = length retrieved_evidence,
                      has_images = (length imgs > 0), images = imgs\<rparr>,
                     [(system_prompt, user_prompt)]))))"

text \<open>\<^verbatim>\<open>User_Retrieval_Pipeline.answer\<close>.\<close>

definition answer :: "'q rag_env \<Rightarrow> string \<Rightarrow> 'q full_answer \<times> (string \<times> string) list" where
  "answer env user_query =
     (let qo = parse env user_query;
          retrieved = retrieve env qo
      in if retrieved = []
         then (rag_answer.extend (generate_no_result_answer user_query)
                 (full_answer.fields qo []), [])
         else
           (let materialized_records = materialize env retrieved
            in case synthesize env user_query materialized_records qo of
                 (answer_result, calls) \<Rightarrow>
                   (rag_answer.extend answer_result (full_answer.fields qo materialized_records),
                    calls)))"

section \<open>Selection by score\<close>

text \<open>Position \<open>j\<close> holds the first maximum of \<open>f\<close> over \<open>xs\<close>: nothing scores higher and
  everything before it scores strictly lower.\<close>

definition is_first_max :: "('a \<Rightarrow> real) \<Rightarrow> 'a list \<Rightarrow> nat \<Rightarrow> bool" where
  "is_first_max f xs j =
     (j < length xs \<and> (\<forall>i < length xs. f (xs ! i) \<le> f (xs ! j)) \<and> (\<forall>i < j. f (xs ! i) < f (xs ! j)))"

text \<open>The detections of a group of clips in the order in which \<^verbatim>\<open>_select_keyframes\<close> visits
  them (clip, then frame, then position in the frame), each with its clip and frame
  index, and those of one person id.\<close>

definition clip_candidates :: "clip list \<Rightarrow> (clip \<times> nat \<times> detection) list" where
  "clip_candidates cs =
     concat (map (\<lambda>c. concat (map (\<lambda>(frame_idx, frame_people).
                                      map (\<lambda>person. (c, frame_idx, person)) frame_people)
                                  (enumerate 0 (people_detected c)))) cs)"

definition person_candidates :: "int \<Rightarrow> clip list \<Rightarrow> (clip \<times> nat \<times> detection) list" where
  "person_candidates pid cs = filter (\<lambda>(c, i, p). person_id p = Some pid) (clip_candidates cs)"

definition cand_score :: "float_arith \<Rightarrow> clip \<times> nat \<times> detection \<Rightarrow> real" where
  "cand_score fa x = (case x of (c, i, p) \<Rightarrow> calculate_detection_score fa p)"

definition cand_keyframe :: "clip \<times> nat \<times> detection \<Rightarrow> keyframe" where
  "cand_keyframe x = (case x of (c, i, p) \<Rightarrow> keyframe_of c i p)"

text \<open>A running maximum with strict improvement, the shape of the keyframe loop.\<close>

definition scan_step :: "('a \<Rightarrow> real) \<Rightarrow> ('a \<Rightarrow> 'b) \<Rightarrow> 'a \<Rightarrow> real \<times> 'b option \<Rightarrow> real \<times> 'b option" where
  "scan_step f g x acc =
     (case acc of (b, r) \<Rightarrow> if f x > b then (f x, Some (g x)) else (b, r))"

section \<open>Example inputs\<close>

text \<open>Double-precision arithmetic on the values that arise in the examples below: the
  literal 0.01 is the double nearest to it, the products of that double with 6000 and
  with 6200 round to 60 and 62, and every other value that arises is a double already.\<close>

definition double_001 :: real where
  "double_001 = 5764607523034235 / 576460752303423488"

definition ex_rnd :: "real \<Rightarrow> real" where
  "ex_rnd x =
     (if x = 1 / 100 then double_001
      else if x = 6000 * double_001 then 60
      else if x = 6200 * double_001 then 62
      else x)"

definition ex_arith :: float_arith where
  "ex_arith = \<lparr>rnd = ex_rnd, overflows = (\<lambda>x. \<bar>x\<bar> \<ge> 2 ^ 1024),
      fpow = (\<lambda>x y. if y = 2 then x\<^sup>2 else x powr y)\<rparr>"

text \<open>A clip of 119 frames at 29.75 frames per second; a frame is named by its index.\<close>

definition ntsc_like :: "nat video" where
  "ntsc_like = \<lparr>is_opened = True, video_fps = 119 / 4, total_frames = 119, stream = [0 ..< 119]\<rparr>"

text \<open>An environment over an empty store: nothing is ever retrieved.\<close>

definition empty_store_env :: "unit rag_env" where
  "empty_store_env =
     \<lparr>parse = (\<lambda>q. ()), retrieve = (\<lambda>qo. []), materialize = (\<lambda>rs. rs),
      build_system_prompt = (\<lambda>qo. ''system''), build_user_prompt = (\<lambda>q rs qo. q),
      fallback_text = (\<lambda>q rs. ''fallback''), llm_generate = (\<lambda>sp up. Inr ''made up''),
      str_strip = (\<lambda>t. t)\<rparr>"

text \<open>A household of one enrolled person with one reference face, seen last at time 0;
  a similarity that tells equal vectors from different ones; a database that answers.\<close>

definition ex_person :: "string \<Rightarrow> person" where
  "ex_person r = \<lparr>p_id = 1, p_name = ''1'', p_role = r, current_body_embedding = None,
      body_update_time = None, first_seen = Some 0, last_seen = Some 0, p_notes = None\<rparr>"

definition ex_db :: "string \<Rightarrow> arbiter_db" where
  "ex_db r = \<lparr>persons = [ex_person r],
      person_faces = [\<lparr>pf_id = 1, pf_person_id = 1, pf_embedding = [1, 0], source_image = ''1.jpeg''\<rparr>]\<rparr>"

definition ex_sim :: "vec \<Rightarrow> vec \<Rightarrow> real" where
  "ex_sim a b = (if a = b then 1 else 0)"

definition no_faults :: faults where
  "no_faults = \<lparr>face_query_fails = False, face_update_fails = False, body_query_fails = False,
      body_update_fails = False, soft_query_fails = False\<rparr>"

definition all_faults :: faults where
  "all_faults = \<lparr>face_query_fails = True, face_update_fails = True, body_query_fails = True,
      body_update_fails = True, soft_query_fails = True\<rparr>"

text \<open>1 September 2025 with two stored events and a summary that still counts one.\<close>

definition ex_date_of :: "real \<Rightarrow> string" where
  "ex_date_of t = (if t < 86400 then ''2025-09-01'' else ''2025-09-02'')"

definition ex_store :: store where
  "ex_store =
     \<lparr>event_logs = [\<lparr>ev_id = 1, ev_start_time = 32400, camera_location = ''doorbell'',
                      llm_description = ''arrival''\<rparr>,
                    \<lparr>ev_id = 2, ev_start_time = 32420, camera_location = ''indoor_living'',
                      llm_description = ''inside''\<rparr>],
      daily_summaries = [\<lparr>ds_id = 1, summary_date = ''2025-09-01'', summary_text = ''old'',
                           total_events = 1, created_at = 40000, updated_at = 40000\<rparr>],
      summary_id_seq = 2\<rparr>"

text \<open>The same summary row after the events of its date are gone.\<close>

definition stale_store :: store where
  "stale_store =
     \<lparr>event_logs = [],
      daily_summaries = [\<lparr>ds_id = 1, summary_date = ''2025-09-01'', summary_text = ''old'',
                           total_events = 1, created_at = 40000, updated_at = 40000\<rparr>],
      summary_id_seq = 2\<rparr>"

definition ex_run_env :: run_env where
  "ex_run_env = \<lparr>now = 50000, get_fails = False, fetch_fails = False, save_fails = False,
      format_timeline = (\<lambda>es. ''timeline''), analyze = (\<lambda>t d. ''new'')\<rparr>"

text \<open>Two face detections of person 1, both centred on (320, 240): a box of 60 by 100
  pixels with confidence 0.875 and a box of 62 by 100 pixels with confidence 0.5, in
  consecutive frames of one clip.\<close>

definition small_sharp :: detection where
  "small_sharp = \<lparr>person_id = Some 1, role = Some ''family'', det_method = Some ''face'',
      confidence = Some (7 / 8), bbox = Some (290, 190, 350, 290), body_embedding = None\<rparr>"

definition wide_blurry :: detection where
  "wide_blurry = \<lparr>person_id = Some 1, role = Some ''family'', det_method = Some ''face'',
      confidence = Some (1 / 2), bbox = Some (289, 190, 351, 290), body_embedding = None\<rparr>"

definition kf_clip :: clip where
  "kf_clip = \<lparr>time = 0, cam = ''doorbell'', people_detected = [[small_sharp], [wide_blurry]],
      video_duration = None\<rparr>"

definition ex_family :: "int \<Rightarrow> detection" where
  "ex_family i = \<lparr>person_id = Some i, role = Some ''family'', det_method = Some ''face'',
      confidence = Some (9 / 10), bbox = Some (0, 0, 100, 200), body_embedding = None\<rparr>"

definition ex_stranger :: detection where
  "ex_stranger = \<lparr>person_id = None, role = Some ''stranger'', det_method = Some ''new'',
      confidence = Some (8 / 10), bbox = Some (0, 0, 100, 200), body_embedding = None\<rparr>"

text \<open>Two clips two seconds apart, each showing a (different) family member and an
  unresolved stranger.\<close>

definition mixed_clip :: "real \<Rightarrow> int \<Rightarrow> clip" where
  "mixed_clip t i = \<lparr>time = t, cam = ''doorbell'', people_detected = [[ex_family i, ex_stranger]],
      video_duration = None\<rparr>"

definition ex_raw :: "real \<Rightarrow> raw_clip" where
  "ex_raw t = \<lparr>raw_time = Some t, raw_cam = Some ''doorbell'',
      raw_people_detected = Some [[ex_family 1]], raw_video_duration = None\<rparr>"

definition ex_suspected :: "int \<Rightarrow> detection" where
  "ex_suspected i = \<lparr>person_id = Some i, role = Some ''suspected_family'',
      det_method = Some ''soft_match'', confidence = Some (7 / 10), bbox = Some (0, 0, 100, 200),
      body_embedding = None\<rparr>"

text \<open>A clip whose only frame shows family member 1 and a suspected sighting of person 2.\<close>

definition suspect_clip :: clip where
  "suspect_clip = \<lparr>time = 0, cam = ''doorbell'', people_detected = [[ex_family 1, ex_suspected 2]],
      video_duration = None\<rparr>"

text \<open>An event's start is the time of its first clip and its end the time of its
  last clip.\<close>

definition event_times_ok :: "event \<Rightarrow> bool" where
  "event_times_ok e =
     (case clips e of
        [] \<Rightarrow> False
      | c # _ \<Rightarrow> start_time e = time c \<and> end_time e = time (last (clips e)))"

section \<open>Results\<close>

subsection \<open>Identity arbiter\<close>

lemma nearest_in_set: "nearest f xs = Some x \<Longrightarrow> x \<in> set xs"
  by (induction xs arbitrary: x) (auto split: option.splits if_splits)

lemma face_rows_person:
  "(pf, p) \<in> set (face_rows sim arb db fv) \<Longrightarrow> p \<in> set (persons db) \<and> p_id p = pf_person_id pf"
  by (auto simp: face_rows_def)

lemma match_by_face_cases:
  assumes "match_by_face sim arb flt db fv body_vec ts = (r, db')"
  shows "(r = None \<and> db' = db)
    \<or> (\<exists>res p. r = Some res \<and> id_method res = ''face'' \<and> p \<in> set (persons db)
           \<and> id_person_id res = Some (p_id p)
           \<and> id_role res = (if p_role p = ''owner'' then ''family'' else p_role p)
           \<and> (case body_vec of
                 None \<Rightarrow> db' = db
               | Some bv \<Rightarrow> db' = update_body_cache db (p_id p) bv ts))"
proof (cases "face_query_fails flt")
  case True
  with assms show ?thesis by (simp add: match_by_face_def match_by_face_try_def)
next
  case False
  show ?thesis
  proof (cases "nearest (\<lambda>(pf, p). sim (pf_embedding pf) fv) (face_rows sim arb db fv)")
    case None
    with False assms show ?thesis by (simp add: match_by_face_def match_by_face_try_def)
  next
    case (Some row)
    obtain pf p where row: "row = (pf, p)" by (cases row)
    from nearest_in_set [OF Some] row have "(pf, p) \<in> set (face_rows sim arb db fv)" by simp
    then have p: "p \<in> set (persons db)" "p_id p = pf_person_id pf"
      using face_rows_person by blast+
    let ?res = "\<lparr>id_person_id = Some (pf_person_id pf),
                 id_role = (if p_role p = ''owner'' then ''family'' else p_role p),
                 id_method = ''face'',
                 id_confidence = sim (pf_embedding pf) fv,
                 id_body_embedding = body_vec\<rparr>"
    show ?thesis
    proof (cases body_vec)
      case None
      with False Some row assms have "r = Some ?res" "db' = db"
        by (simp_all add: match_by_face_def match_by_face_try_def Let_def)
      with p None show ?thesis
        by (intro disjI2 exI [of _ ?res] exI [of _ p]) simp
    next
      case (Some bv)
      show ?thesis
      proof (cases "face_update_fails flt")
        case True
        with False \<open>nearest _ _ = Some row\<close> row Some assms show ?thesis
          by (simp add: match_by_face_def match_by_face_try_def Let_def)
      next
        case F: False
        with False \<open>nearest _ _ = Some row\<close> row Some assms
        have "r = Some ?res" "db' = update_body_cache db (pf_person_id pf) bv ts"
          by (simp_all add: match_by_face_def match_by_face_try_def Let_def)
        with p Some show ?thesis
          by (intro disjI2 exI [of _ ?res] exI [of _ p]) simp
      qed
    qed
  qed
qed

lemma match_by_body_cases:
  assumes "match_by_body sim arb flt db bv ts = (r, db')"
  shows "(r = None \<and> db' = db)
    \<or> (\<exists>res pid. r = Some res \<and> id_method res = ''body'' \<and> id_role res = ''family''
           \<and> id_person_id res = Some pid \<and> db' = update_body_cache db pid bv ts)"
  using assms
  by (auto simp: match_by_body_def match_by_body_try_def split: if_splits option.splits)

lemma soft_match_by_body_cases:
  assumes "soft_match_by_body sim arb flt db bv ts = (r, db')"
  shows "db' = db \<and> (r = None
    \<or> (\<exists>res. r = Some res \<and> id_method res = ''soft_match'' \<and> id_role res = ''suspected_family''))"
  using assms
  by (auto simp: soft_match_by_body_def soft_match_by_body_try_def split: if_splits option.splits)

text \<open>The four ways in which a call can end.\<close>

lemma identify_cases:
  assumes "identify sim arb flt db face_vec body_vec ts = (res, db')"
  shows "(id_method res = ''face''
          \<and> (\<exists>p \<in> set (persons db). id_person_id res = Some (p_id p)
                \<and> id_role res = (if p_role p = ''owner'' then ''family'' else p_role p)
                \<and> (case body_vec of None \<Rightarrow> db' = db
                    | Some bv \<Rightarrow> db' = update_body_cache db (p_id p) bv ts)))
    \<or> (id_method res = ''body'' \<and> id_role res = ''family''
          \<and> (\<exists>bv pid. body_vec = Some bv \<and> id_person_id res = Some pid
                \<and> db' = update_body_cache db pid bv ts))
    \<or> (id_method res = ''soft_match'' \<and> id_role res = ''suspected_family'' \<and> db' = db)
    \<or> (res = stranger_result body_vec \<and> db' = db)"
proof -
  obtain r1 db1 where f: "(case face_vec of None \<Rightarrow> (None, db)
            | Some fv \<Rightarrow> match_by_face sim arb flt db fv body_vec ts) = (r1, db1)"
    by (cases "case face_vec of None \<Rightarrow> (None, db)
            | Some fv \<Rightarrow> match_by_face sim arb flt db fv body_vec ts")
  have fc: "(r1 = None \<and> db1 = db)
    \<or> (\<exists>res p. r1 = Some res \<and> id_method res = ''face'' \<and> p \<in> set (persons db)
           \<and> id_person_id res = Some (p_id p)
           \<and> id_role res = (if p_role p = ''owner'' then ''family'' else p_role p)
           \<and> (case body_vec of
                 None \<Rightarrow> db1 = db
               | Some bv \<Rightarrow> db1 = update_body_cache db (p_id p) bv ts))"
  proof (cases face_vec)
    case None
    with f show ?thesis by simp
  next
    case (Some fv)
    with f have "match_by_face sim arb flt db fv body_vec ts = (r1, db1)" by simp
    then show ?thesis by (rule match_by_face_cases)
  qed
  from assms have id: "(case (r1, db1) of
        (Some result, db1) \<Rightarrow> (result, db1)
      | (None, db1) \<Rightarrow>
          (case body_vec of
             None \<Rightarrow> (stranger_result None, db1)
           | Some bv \<Rightarrow>
               (case match_by_body sim arb flt db1 bv ts of
                  (Some result, db2) \<Rightarrow> (result, db2)
                | (None, db2) \<Rightarrow>
                    (case soft_match_by_body sim arb flt db2 bv ts of
                       (Some soft_result, db3) \<Rightarrow> (soft_result, db3)
                     | (None, db3) \<Rightarrow> (stranger_result (Some bv), db3))))) = (res, db')"
    unfolding identify_def f .
  show ?thesis
  proof (cases r1)
    case (Some result)
    with id have "res = result" "db' = db1" by simp_all
    with fc Some show ?thesis by auto
  next
    case None
    with fc have db1: "db1 = db" by auto
    show ?thesis
    proof (cases body_vec)
      case N: None
      with id None db1 show ?thesis by simp
    next
      case (Some bv)
      obtain r2 db2 where b: "match_by_body sim arb flt db bv ts = (r2, db2)"
        by (cases "match_by_body sim arb flt db bv ts")
      note bc = match_by_body_cases [OF b]
      show ?thesis
      proof (cases r2)
        case S2: (Some result)
        with id None db1 Some b have "res = result" "db' = db2" by simp_all
        with bc S2 Some show ?thesis by auto
      next
        case N2: None
        with bc have db2: "db2 = db" by auto
        obtain r3 db3 where s: "soft_match_by_body sim arb flt db bv ts = (r3, db3)"
          by (cases "soft_match_by_body sim arb flt db bv ts")
        note sc = soft_match_by_body_cases [OF s]
        show ?thesis
        proof (cases r3)
          case S3: (Some result)
          with id None db1 Some b N2 db2 s have "res = result" "db' = db3" by simp_all
          with sc S3 show ?thesis by auto
        next
          case N3: None
          with id None db1 Some b N2 db2 s have "res = stranger_result (Some bv)" "db' = db3"
            by simp_all
          with sc Some show ?thesis by auto
        qed
      qed
    qed
  qed
qed

lemma update_body_cache_frame:
  "person_faces (update_body_cache db pid bv ts) = person_faces db"
  "map outside_cache (persons (update_body_cache db pid bv ts)) = map outside_cache (persons db)"
  "list_all2 (\<lambda>p p'. p_id p \<noteq> pid \<longrightarrow> p' = p) (persons db) (persons (update_body_cache db pid bv ts))"
  "list_all2 (\<lambda>p p'. p_id p = pid \<longrightarrow>
        current_body_embedding p' = Some bv \<and> body_update_time p' = Some ts \<and> last_seen p' = Some ts)
     (persons db) (persons (update_body_cache db pid bv ts))"
  by (simp_all add: update_body_cache_def outside_cache_def list_all2_map2 list_all2_same comp_def)

lemma list_all2_refl_imp: "list_all2 (\<lambda>p p'. Q p \<longrightarrow> p' = p) xs xs"
  by (simp add: list_all2_same)

lemma ex_face_hit:
  "identify ex_sim default_arbiter no_faults (ex_db ''owner'') (Some [1, 0]) (Some [0, 1]) 100
   = (\<lparr>id_person_id = Some 1, id_role = ''family'', id_method = ''face'', id_confidence = 1,
        id_body_embedding = Some [0, 1]\<rparr>,
      update_body_cache (ex_db ''owner'') 1 [0, 1] 100)"
  by (simp add: identify_def match_by_face_def match_by_face_try_def face_rows_def ex_db_def
      ex_person_def ex_sim_def default_arbiter_def no_faults_def Let_def)

text \<open>
  C1 (as the code has it). A call of identify that ends in a face hit carrying a body
  vector, or in a body hit, rewrites the cache columns (current_body_embedding,
  body_update_time, last_seen) of the matched person with the body vector and the clip
  time; a face hit without a body vector, a soft-body hit and a miss leave the database
  as it was. In every case the face table is unchanged, every person row keeps all its
  other columns, and the rows of other persons are unchanged; after an update the three
  cache columns of the matched person hold the body vector and the clip time.
\<close>

theorem body_cache_frame:
  assumes "identify sim arb flt db face_vec body_vec ts = (res, db')"
  shows "(id_method res = ''face'' \<longrightarrow>
            (case body_vec of
               None \<Rightarrow> db' = db
             | Some bv \<Rightarrow> \<exists>pid. id_person_id res = Some pid \<and> db' = update_body_cache db pid bv ts))
    \<and> (id_method res = ''body'' \<longrightarrow>
            (\<exists>bv pid. body_vec = Some bv \<and> id_person_id res = Some pid
                \<and> db' = update_body_cache db pid bv ts))
    \<and> (id_method res = ''soft_match'' \<or> id_method res = ''new'' \<longrightarrow> db' = db)
    \<and> person_faces db' = person_faces db
    \<and> map outside_cache (persons db') = map outside_cache (persons db)
    \<and> list_all2 (\<lambda>p p'. Some (p_id p) \<noteq> id_person_id res \<longrightarrow> p' = p) (persons db) (persons db')
    \<and> (\<forall>bv. body_vec = Some bv \<and> (id_method res = ''face'' \<or> id_method res = ''body'') \<longrightarrow>
          list_all2 (\<lambda>p p'. Some (p_id p) = id_person_id res \<longrightarrow>
                current_body_embedding p' = Some bv \<and> body_update_time p' = Some ts
                \<and> last_seen p' = Some ts)
            (persons db) (persons db'))"
  using identify_cases [OF assms]
proof (elim disjE conjE bexE exE)
  fix p
  assume face: "id_method res = ''face''" "id_person_id res = Some (p_id p)"
    "case body_vec of None \<Rightarrow> db' = db | Some bv \<Rightarrow> db' = update_body_cache db (p_id p) bv ts"
  show ?thesis
  proof (cases body_vec)
    case None
    with face show ?thesis by (simp add: list_all2_refl_imp)
  next
    case (Some bv)
    with face have "db' = update_body_cache db (p_id p) bv ts" by simp
    with face(1,2) Some update_body_cache_frame [where db = db and pid = "p_id p" and bv = bv and ts = ts] show ?thesis by simp
  qed
next
  fix bv pid
  assume body: "id_method res = ''body''" "body_vec = Some bv" "id_person_id res = Some pid"
    "db' = update_body_cache db pid bv ts"
  with update_body_cache_frame [where db = db and pid = pid and bv = bv and ts = ts] show ?thesis by simp
next
  assume soft: "id_method res = ''soft_match''" "db' = db"
  then show ?thesis by (simp add: list_all2_refl_imp)
next
  assume miss: "res = stranger_result body_vec" "db' = db"
  then show ?thesis by (simp add: stranger_result_def list_all2_same)
qed

theorem body_cache_frame_witness:
  "map outside_cache (persons (update_body_cache (ex_db ''owner'') 1 [0, 1] 100))
     = map outside_cache (persons (ex_db ''owner''))
   \<and> map last_seen (persons (update_body_cache (ex_db ''owner'') 1 [0, 1] 100)) = [Some 100]
   \<and> map last_seen (persons (ex_db ''owner'')) = [Some 0]"
proof -
  from body_cache_frame [OF ex_face_hit]
  have "map outside_cache (persons (update_body_cache (ex_db ''owner'') 1 [0, 1] 100))
     = map outside_cache (persons (ex_db ''owner''))"
    by simp
  then show ?thesis
    by (simp add: update_body_cache_def ex_db_def ex_person_def)
qed

text \<open>
  C1 as stated fails: the face path writes the cache only when a body vector came with
  the face. A face hit without one returns the family identity and leaves the person's
  last_seen at its old value.
\<close>

theorem body_cache_counterexample:
  "identify ex_sim default_arbiter no_faults (ex_db ''owner'') (Some [1, 0]) None 100
   = (\<lparr>id_person_id = Some 1, id_role = ''family'', id_method = ''face'', id_confidence = 1,
        id_body_embedding = None\<rparr>, ex_db ''owner'')
   \<and> map last_seen (persons (ex_db ''owner'')) = [Some 0]"
  by (simp add: identify_def match_by_face_def match_by_face_try_def face_rows_def ex_db_def
      ex_person_def ex_sim_def default_arbiter_def no_faults_def Let_def)

text \<open>
  C9 (as the code has it). identify always returns an identity and never an error. Its
  role is family, suspected_family or stranger, or, on a face hit of a person whose
  stored role is not owner, that stored role. A match path whose try block raises (a
  failed query in particular) yields None and leaves the database unchanged, and when
  the queries of all three paths fail the call returns the stranger result (no person
  id, method new, confidence 0, the body vector echoed) with the database unchanged.
\<close>

theorem identify_total:
  "(id_role (fst (identify sim arb flt db face_vec body_vec ts))
        \<in> {''family'', ''suspected_family'', ''stranger''}
      \<or> (id_method (fst (identify sim arb flt db face_vec body_vec ts)) = ''face''
          \<and> (\<exists>p \<in> set (persons db).
                id_person_id (fst (identify sim arb flt db face_vec body_vec ts)) = Some (p_id p)
                \<and> id_role (fst (identify sim arb flt db face_vec body_vec ts)) = p_role p
                \<and> p_role p \<noteq> ''owner'')))
   \<and> (face_query_fails flt \<longrightarrow> (\<forall>fv. match_by_face sim arb flt db fv body_vec ts = (None, db)))
   \<and> (body_query_fails flt \<longrightarrow> (\<forall>bv. match_by_body sim arb flt db bv ts = (None, db)))
   \<and> (soft_query_fails flt \<longrightarrow> (\<forall>bv. soft_match_by_body sim arb flt db bv ts = (None, db)))
   \<and> (face_query_fails flt \<and> body_query_fails flt \<and> soft_query_fails flt \<longrightarrow>
         identify sim arb flt db face_vec body_vec ts = (stranger_result body_vec, db))
   \<and> (\<forall>fv e. match_by_face_try sim arb flt db fv body_vec ts = Inl e \<longrightarrow>
         match_by_face sim arb flt db fv body_vec ts = (None, db))
   \<and> (\<forall>bv e. match_by_body_try sim arb flt db bv ts = Inl e \<longrightarrow>
         match_by_body sim arb flt db bv ts = (None, db))
   \<and> (\<forall>bv e. soft_match_by_body_try sim arb flt db bv ts = Inl e \<longrightarrow>
         soft_match_by_body sim arb flt db bv ts = (None, db))"
proof -
  obtain res db' where i: "identify sim arb flt db face_vec body_vec ts = (res, db')"
    by (cases "identify sim arb flt db face_vec body_vec ts")
  have role: "id_role res \<in> {''family'', ''suspected_family'', ''stranger''}
      \<or> (id_method res = ''face''
          \<and> (\<exists>p \<in> set (persons db). id_person_id res = Some (p_id p) \<and> id_role res = p_role p
                \<and> p_role p \<noteq> ''owner''))"
    using identify_cases [OF i] by (auto simp: stranger_result_def split: if_splits)
  have f: "face_query_fails flt \<longrightarrow> (\<forall>fv. match_by_face sim arb flt db fv body_vec ts = (None, db))"
    by (simp add: match_by_face_def match_by_face_try_def)
  have b: "body_query_fails flt \<longrightarrow> (\<forall>bv. match_by_body sim arb flt db bv ts = (None, db))"
    by (simp add: match_by_body_def match_by_body_try_def)
  have s: "soft_query_fails flt \<longrightarrow> (\<forall>bv. soft_match_by_body sim arb flt db bv ts = (None, db))"
    by (simp add: soft_match_by_body_def soft_match_by_body_try_def)
  have a: "face_query_fails flt \<and> body_query_fails flt \<and> soft_query_fails flt \<longrightarrow>
         identify sim arb flt db face_vec body_vec ts = (stranger_result body_vec, db)"
    using f b s by (auto simp: identify_def split: option.splits)
  have x: "(\<forall>fv e. match_by_face_try sim arb flt db fv body_vec ts = Inl e \<longrightarrow>
         match_by_face sim arb flt db fv body_vec ts = (None, db))
   \<and> (\<forall>bv e. match_by_body_try sim arb flt db bv ts = Inl e \<longrightarrow>
         match_by_body sim arb flt db bv ts = (None, db))
   \<and> (\<forall>bv e. soft_match_by_body_try sim arb flt db bv ts = Inl e \<longrightarrow>
         soft_match_by_body sim arb flt db bv ts = (None, db))"
    by (simp add: match_by_face_def match_by_body_def soft_match_by_body_def)
  from role f b s a x show ?thesis by (simp add: i)
qed

theorem identify_total_witness:
  "identify ex_sim default_arbiter all_faults (ex_db ''owner'') (Some [1, 0]) (Some [0, 1]) 100
   = (stranger_result (Some [0, 1]), ex_db ''owner'')"
  using identify_total [of ex_sim default_arbiter all_faults "ex_db ''owner''" "Some [1, 0]"
      "Some [0, 1]" 100]
  by (simp add: all_faults_def)

text \<open>
  C9 as stated fails in its role clause: a face hit passes a stored role other than
  owner through unchanged. For an enrolled person whose stored role has become visitor
  the arbiter answers visitor.
\<close>

theorem identify_role_counterexample:
  "identify ex_sim default_arbiter no_faults (ex_db ''visitor'') (Some [1, 0]) None 100
   = (\<lparr>id_person_id = Some 1, id_role = ''visitor'', id_method = ''face'', id_confidence = 1,
        id_body_embedding = None\<rparr>, ex_db ''visitor'')"
  by (simp add: identify_def match_by_face_def match_by_face_try_def face_rows_def ex_db_def
      ex_person_def ex_sim_def default_arbiter_def no_faults_def Let_def)

subsection \<open>Frame sampler\<close>

lemma sample_loop_enum:
  "step \<noteq> 0 \<Longrightarrow>
   sample_loop step c rest acc
     = Inr (acc @ map snd (filter (\<lambda>(i, x). int i mod step = 0) (enumerate c rest)))"
  by (induction rest arbitrary: c acc) simp_all

text \<open>
  C6 (as the code has it). For an opened video with positive source and target rates
  the sampler strides by k = int(source_fps / target_fps), the double-precision quotient
  truncated towards zero, not rounded: whenever the quotient is finite and k is not
  zero, the sampler emits exactly the frames at positions 0, k, 2k, ... together with
  the duration total_frames / source_fps.
\<close>

theorem sampler_stride:
  assumes "is_opened v" and "0 < video_fps v" and "0 < fps"
    and "\<not> overflows fa (video_fps v / fps)"
    and "py_int (rnd fa (video_fps v / fps)) = k" and "k \<noteq> 0"
  shows "skip_step fa (video_fps v) fps = Inr k
    \<and> get_frames fa v fps = Inr (every_nth k (stream v), video_duration_of fa v)"
proof -
  have k: "skip_step fa (video_fps v) fps = Inr k"
    using assms by (simp add: skip_step_def)
  have g: "get_frames fa v fps = Inr (every_nth k (stream v), video_duration_of fa v)"
    using assms(1,6) k by (simp add: get_frames_def sample_loop_enum every_nth_def)
  from k g show ?thesis by simp
qed

lemma ntsc_like_stride: "skip_step ex_arith (video_fps ntsc_like) 1 = Inr 29"
  by (simp add: ntsc_like_def skip_step_def py_int_def ex_arith_def ex_rnd_def double_001_def)

theorem sampler_stride_witness:
  "skip_step ex_arith (119 / 4) 1 = Inr 29
   \<and> get_frames ex_arith ntsc_like 1 = Inr (every_nth 29 [0 ..< 119], 4)"
proof -
  have d: "video_duration_of ex_arith ntsc_like = 4"
    by (simp add: video_duration_of_def ntsc_like_def ex_arith_def ex_rnd_def double_001_def)
  have o: "is_opened ntsc_like" and st: "stream ntsc_like = [0 ..< 119]"
    and r: "video_fps ntsc_like = 119 / 4"
    by (simp_all add: ntsc_like_def)
  have p: "0 < video_fps ntsc_like" "0 < (1::real)"
    "\<not> overflows ex_arith (video_fps ntsc_like / 1)"
    "py_int (rnd ex_arith (video_fps ntsc_like / 1)) = 29" "(29::int) \<noteq> 0"
    by (simp_all add: r py_int_def ex_arith_def ex_rnd_def double_001_def)
  from sampler_stride [OF o p] d st r show ?thesis by simp
qed

text \<open>
  C6 as stated fails: the stride is the truncated quotient, not the rounded one. At
  29.75 frames per second and a target of 1 the quotient is exactly 29.75; the sampler
  strides by 29 and emits frames 0, 29, 58, 87 and 116 of 119, where a stride of
  round(29.75) = 30 would emit frames 0, 30, 60 and 90.
\<close>

theorem sampler_stride_counterexample:
  "skip_step ex_arith (video_fps ntsc_like) 1 = Inr 29
   \<and> spec_stride ex_arith (video_fps ntsc_like) 1 = 30
   \<and> get_frames ex_arith ntsc_like 1 = Inr ([0, 29, 58, 87, 116], 4)
   \<and> every_nth (spec_stride ex_arith (video_fps ntsc_like) 1) (stream ntsc_like) = [0, 30, 60, 90]"
proof -
  have b: "spec_stride ex_arith (video_fps ntsc_like) 1 = 30"
    by (simp add: ntsc_like_def spec_stride_def py_round_def Let_def ex_arith_def ex_rnd_def
        double_001_def)
  have e29: "every_nth 29 [0 ..< 119 :: nat] = [0, 29, 58, 87, 116]"
    unfolding every_nth_def enumerate_eq_zip by code_simp
  have e30: "every_nth 30 [0 ..< 119 :: nat] = [0, 30, 60, 90]"
    unfolding every_nth_def enumerate_eq_zip by code_simp
  have d: "video_duration_of ex_arith ntsc_like = 4"
    by (simp add: video_duration_of_def ntsc_like_def ex_arith_def ex_rnd_def double_001_def)
  have c: "get_frames ex_arith ntsc_like 1 = Inr ([0, 29, 58, 87, 116], 4)"
    using ntsc_like_stride e29 d
    by (simp add: get_frames_def sample_loop_enum every_nth_def) (simp add: ntsc_like_def)
  have f: "every_nth (spec_stride ex_arith (video_fps ntsc_like) 1) (stream ntsc_like)
             = [0, 30, 60, 90]"
    using e30 by (simp add: b) (simp add: ntsc_like_def)
  from ntsc_like_stride b c f show ?thesis by simp
qed

subsection \<open>Fusion policy\<close>

lemma scan_person_eq:
  "scan_person d (ids, hf, hs) =
     (ids \<union> {i. i \<noteq> 0 \<and> person_id d = Some i},
      hf \<or> role_of d = ''family'',
      hs \<or> role_of d = ''stranger'')"
  by (cases "person_id d") (auto simp: scan_person_def)

lemma fold_scan_person:
  "fold scan_person ds (ids, hf, hs) =
     (ids \<union> {i. i \<noteq> 0 \<and> (\<exists>d \<in> set ds. person_id d = Some i)},
      hf \<or> (\<exists>d \<in> set ds. role_of d = ''family''),
      hs \<or> (\<exists>d \<in> set ds. role_of d = ''stranger''))"
proof (induction ds arbitrary: ids hf hs)
  case Nil
  show ?case by simp
next
  case (Cons d ds)
  show ?case
    by (simp add: scan_person_eq Cons.IH) blast
qed

lemma fold_scan_frames:
  "fold (\<lambda>frame_people acc. fold scan_person frame_people acc) pd (ids, hf, hs) =
     (ids \<union> {i. i \<noteq> 0 \<and> (\<exists>d \<in> set (concat pd). person_id d = Some i)},
      hf \<or> (\<exists>d \<in> set (concat pd). role_of d = ''family''),
      hs \<or> (\<exists>d \<in> set (concat pd). role_of d = ''stranger''))"
proof (induction pd arbitrary: ids hf hs)
  case Nil
  show ?case by simp
next
  case (Cons fp pd)
  show ?case
    by (simp add: fold_scan_person Cons.IH) blast
qed

lemma extract_people_set_eq:
  "extract_people_set c =
     \<lparr>person_ids = resolved_ids c,
      all_strangers = (clip_has_role ''stranger'' c \<and> \<not> clip_has_role ''family'' c),
      has_family = clip_has_role ''family'' c,
      has_stranger = clip_has_role ''stranger'' c\<rparr>"
  by (simp add: extract_people_set_def fold_scan_frames resolved_ids_def clip_has_role_def
      detections_of_def)

text \<open>
  C2 (as the code has it). Two clips are connected if and only if the gap
  current.start - last.start lies in [0, T) for the policy's threshold T (60 by default)
  and (a) they share a non-null, non-zero person id, or (b) each has a stranger-role
  detection and no family-role detection and the gap is below 10 s, or (c) the gap is
  below 5 s and one has a family-role detection while the other has a stranger-role
  detection.
\<close>

theorem is_connected_iff:
  "is_connected pol last_clip current_clip \<longleftrightarrow>
     (0 \<le> time current_clip - time last_clip
      \<and> time current_clip - time last_clip < real_of_int (time_threshold pol))
     \<and> (resolved_ids last_clip \<inter> resolved_ids current_clip \<noteq> {}
        \<or> (clip_has_role ''stranger'' last_clip \<and> \<not> clip_has_role ''family'' last_clip
            \<and> clip_has_role ''stranger'' current_clip \<and> \<not> clip_has_role ''family'' current_clip
            \<and> time current_clip - time last_clip < 10)
        \<or> (time current_clip - time last_clip < 5
            \<and> ((clip_has_role ''family'' last_clip \<and> clip_has_role ''stranger'' current_clip)
                \<or> (clip_has_role ''stranger'' last_clip \<and> clip_has_role ''family'' current_clip))))"
  by (auto simp: is_connected_def check_time_rule_def check_identity_rule_def
      extract_people_set_eq Let_def)

theorem is_connected_iff_witness:
  "is_connected default_policy (mixed_clip 0 1) (mixed_clip 2 1)"
  by (rule is_connected_iff [THEN iffD2])
    (simp add: default_policy_def mixed_clip_def resolved_ids_def clip_has_role_def
      detections_of_def ex_family_def ex_stranger_def role_of_def)

text \<open>
  C2 as stated fails: rule (c) of the code asks only for some family detection on one
  side and some stranger detection on the other, not for clips of only family and only
  strangers. The two mixed clips share no person id and are neither only-family nor
  only-stranger, yet the policy connects them.
\<close>

theorem is_connected_counterexample:
  "is_connected default_policy (mixed_clip 0 1) (mixed_clip 2 2)
   \<and> \<not> spec_connected (mixed_clip 0 1) (mixed_clip 2 2)"
  by (simp add: is_connected_def check_time_rule_def check_identity_rule_def
      extract_people_set_def default_policy_def mixed_clip_def ex_family_def ex_stranger_def
      scan_person_def role_of_def spec_connected_def spec_identity_rule_def spec_only_role_def
      spec_person_ids_def detections_of_def List.map_filter_def)

subsection \<open>Keyframe and representative selection\<close>

lemma is_first_max_snoc_new:
  "\<forall>y \<in> set xs. f y < f x \<Longrightarrow> is_first_max f (xs @ [x]) (length xs)"
  by (auto simp: is_first_max_def nth_append intro: less_imp_le)

lemma is_first_max_snoc_keep:
  "is_first_max f xs j \<Longrightarrow> f x \<le> f (xs ! j) \<Longrightarrow> is_first_max f (xs @ [x]) j"
  by (auto simp: is_first_max_def nth_append less_Suc_eq)

lemma is_first_max_ge: "is_first_max f xs j \<Longrightarrow> y \<in> set xs \<Longrightarrow> f y \<le> f (xs ! j)"
  by (auto simp: is_first_max_def in_set_conv_nth)

lemma scan_best:
  "fold (scan_step f g) xs (b0, None) = (b, r) \<Longrightarrow>
     (case r of
        None \<Rightarrow> b = b0 \<and> (\<forall>x \<in> set xs. f x \<le> b0)
      | Some k \<Rightarrow> \<exists>j. is_first_max f xs j \<and> k = g (xs ! j) \<and> b = f (xs ! j) \<and> b0 < b)"
proof (induction xs arbitrary: b r rule: rev_induct)
  case Nil
  then show ?case by simp
next
  case (snoc x xs)
  obtain b' r' where p: "fold (scan_step f g) xs (b0, None) = (b', r')"
    by (cases "fold (scan_step f g) xs (b0, None)")
  note IH = snoc.IH [OF p]
  from snoc.prems p have st: "scan_step f g x (b', r') = (b, r)" by simp
  show ?case
  proof (cases r')
    case None
    with IH have b': "b' = b0" and le: "\<forall>y \<in> set xs. f y \<le> b0" by auto
    show ?thesis
    proof (cases "f x > b0")
      case True
      with st b' have br: "b = f x" "r = Some (g x)" by (auto simp: scan_step_def)
      from le True have "\<forall>y \<in> set xs. f y < f x" by fastforce
      then have "is_first_max f (xs @ [x]) (length xs)" by (rule is_first_max_snoc_new)
      with br True show ?thesis by (auto intro!: exI [of _ "length xs"])
    next
      case False
      with st b' None have "b = b0" "r = None" by (auto simp: scan_step_def)
      with le False show ?thesis by auto
    qed
  next
    case (Some k)
    with IH obtain j where j: "is_first_max f xs j" "k = g (xs ! j)" "b' = f (xs ! j)" "b0 < b'"
      by auto
    from j(1) have jl: "j < length xs" by (simp add: is_first_max_def)
    show ?thesis
    proof (cases "f x > b'")
      case True
      with st have br: "b = f x" "r = Some (g x)" by (auto simp: scan_step_def)
      from True j(3) is_first_max_ge [OF j(1)] have "\<forall>y \<in> set xs. f y < f x" by fastforce
      then have "is_first_max f (xs @ [x]) (length xs)" by (rule is_first_max_snoc_new)
      with br True j(4) show ?thesis by (auto intro!: exI [of _ "length xs"])
    next
      case False
      with st Some have br: "b = b'" "r = Some k" by (auto simp: scan_step_def)
      from False j(3) have "f x \<le> f (xs ! j)" by simp
      with j(1) have "is_first_max f (xs @ [x]) j" by (rule is_first_max_snoc_keep)
      with br j jl show ?thesis by (auto simp: nth_append intro!: exI [of _ j])
    qed
  qed
qed

lemma fold_concat_map_acc: "fold (\<lambda>x. fold h (F x)) xs acc = fold h (concat (map F xs)) acc"
  by (induction xs arbitrary: acc) simp_all

lemma fold_concat_map: "fold (\<lambda>x. fold h (F x)) xs = fold h (concat (map F xs))"
  by (rule ext) (rule fold_concat_map_acc)

lemma fold_filter_skip:
  "(\<And>x a. \<not> P x \<Longrightarrow> h x a = a) \<Longrightarrow> fold h (filter P xs) acc = fold h xs acc"
  by (induction xs arbitrary: acc) simp_all

lemma keyframe_fold_flat:
  "fold (\<lambda>c acc. fold (\<lambda>(frame_idx, frame_people) acc'.
                          fold (keyframe_step fa pid c frame_idx) frame_people acc')
                       (enumerate 0 (people_detected c)) acc) cs acc0
   = fold (\<lambda>(c, i, p). keyframe_step fa pid c i p) (clip_candidates cs) acc0"
proof -
  let ?h = "\<lambda>(c, i, p). keyframe_step fa pid c i p"
  have inner: "\<And>c i fp. fold (keyframe_step fa pid c i) fp = fold ?h (map (\<lambda>person. (c, i, person)) fp)"
    by (simp add: fold_map comp_def)
  have mid: "\<And>c. (\<lambda>acc. fold (\<lambda>(frame_idx, frame_people) acc'.
                          fold (keyframe_step fa pid c frame_idx) frame_people acc')
                       (enumerate 0 (people_detected c)) acc)
      = fold ?h (concat (map (\<lambda>(frame_idx, frame_people).
                                      map (\<lambda>person. (c, frame_idx, person)) frame_people)
                                  (enumerate 0 (people_detected c))))"
  proof -
    fix c
    have "(\<lambda>(frame_idx, frame_people) acc'.
                          fold (keyframe_step fa pid c frame_idx) frame_people acc')
       = (\<lambda>x. fold ?h ((\<lambda>(frame_idx, frame_people).
                                      map (\<lambda>person. (c, frame_idx, person)) frame_people) x))"
      by (auto simp: inner fun_eq_iff)
    then show "(\<lambda>acc. fold (\<lambda>(frame_idx, frame_people) acc'.
                          fold (keyframe_step fa pid c frame_idx) frame_people acc')
                       (enumerate 0 (people_detected c)) acc)
      = fold ?h (concat (map (\<lambda>(frame_idx, frame_people).
                                      map (\<lambda>person. (c, frame_idx, person)) frame_people)
                                  (enumerate 0 (people_detected c))))"
      by (simp only: fold_concat_map)
  qed
  show ?thesis
    unfolding clip_candidates_def mid by (rule fold_concat_map_acc)
qed

lemma keyframe_step_scan:
  "person_id (snd (snd x)) = Some pid \<Longrightarrow>
   (case x of (c, i, p) \<Rightarrow> keyframe_step fa pid c i p) acc = scan_step (cand_score fa) cand_keyframe x acc"
  by (cases x; cases acc) (simp add: keyframe_step_def scan_step_def cand_score_def cand_keyframe_def Let_def)

lemma best_keyframe_scan:
  "best_keyframe fa pid cs = snd (fold (scan_step (cand_score fa) cand_keyframe) (person_candidates pid cs) (- 1, None))"
proof -
  let ?h = "\<lambda>(c, i, p). keyframe_step fa pid c i p"
  let ?P = "\<lambda>(c, i, p). person_id p = Some pid"
  have skip: "\<And>x a. \<not> ?P x \<Longrightarrow> ?h x a = a"
    by (auto simp: keyframe_step_def)
  have "fold ?h (clip_candidates cs) (- 1, None) = fold ?h (filter ?P (clip_candidates cs)) (- 1, None)"
    using fold_filter_skip [of ?P ?h] skip by simp
  also have "\<dots> = fold (scan_step (cand_score fa) cand_keyframe) (filter ?P (clip_candidates cs)) (- 1, None)"
    by (rule fold_cong)
       (auto simp: fun_eq_iff keyframe_step_def scan_step_def cand_score_def cand_keyframe_def Let_def)
  finally show ?thesis
    by (simp add: best_keyframe_def keyframe_fold_flat person_candidates_def)
qed

lemma best_keyframe_first_max:
  "(case best_keyframe fa pid cs of
      None \<Rightarrow> \<forall>x \<in> set (person_candidates pid cs). cand_score fa x \<le> - 1
    | Some k \<Rightarrow> \<exists>j. is_first_max (cand_score fa) (person_candidates pid cs) j
                   \<and> k = cand_keyframe (person_candidates pid cs ! j)
                   \<and> - 1 < cand_score fa (person_candidates pid cs ! j))"
proof -
  obtain b r where p: "fold (scan_step (cand_score fa) cand_keyframe) (person_candidates pid cs) (- 1, None) = (b, r)"
    by (cases "fold (scan_step (cand_score fa) cand_keyframe) (person_candidates pid cs) (- 1, None)")
  from scan_best [OF p] show ?thesis
    by (auto simp: best_keyframe_scan p split: option.splits)
qed


lemma is_first_max_Cons_0:
  "\<forall>y \<in> set xs. f y \<le> f x \<Longrightarrow> is_first_max f (x # xs) 0"
  by (auto simp: is_first_max_def nth_Cons split: nat.splits)

lemma is_first_max_Cons_Suc:
  "is_first_max f xs j \<Longrightarrow> f x < f (xs ! j) \<Longrightarrow> is_first_max f (x # xs) (Suc j)"
  by (auto simp: is_first_max_def nth_Cons split: nat.splits intro: less_imp_le)

lemma hd_insort_key:
  "hd (insort_key f x ys) = (if ys = [] \<or> f x \<le> f (hd ys) then x else hd ys)"
  by (cases ys) auto

lemma hd_sort_key_first_min:
  "xs \<noteq> [] \<Longrightarrow> \<exists>j. is_first_max (\<lambda>x. - f x) xs j \<and> hd (sort_key f xs) = xs ! j"
proof (induction xs)
  case Nil
  then show ?case by simp
next
  case (Cons x xs)
  show ?case
  proof (cases "xs = []")
    case True
    then show ?thesis by (auto simp: is_first_max_def)
  next
    case False
    from Cons.IH [OF False] obtain j where j: "is_first_max (\<lambda>x. - f x) xs j"
      "hd (sort_key f xs) = xs ! j" by blast
    have ne: "sort_key f xs \<noteq> []" using False by (metis length_0_conv length_sort)
    show ?thesis
    proof (cases "f x \<le> f (xs ! j)")
      case True
      then have "\<forall>y \<in> set xs. - f y \<le> - f x"
        using is_first_max_ge [OF j(1)] by fastforce
      then have "is_first_max (\<lambda>x. - f x) (x # xs) 0" by (rule is_first_max_Cons_0)
      moreover have "hd (sort_key f (x # xs)) = x"
        using True j(2) by (simp add: hd_insort_key)
      ultimately show ?thesis by (intro exI [of _ 0]) simp
    next
      case F: False
      then have "is_first_max (\<lambda>x. - f x) (x # xs) (Suc j)"
        using j(1) by (intro is_first_max_Cons_Suc) auto
      moreover have "hd (sort_key f (x # xs)) = (x # xs) ! Suc j"
        using F j(2) ne by (simp add: hd_insort_key)
      ultimately show ?thesis by blast
    qed
  qed
qed

lemma scored_detections_nth:
  "j < length ds \<Longrightarrow> scored_detections fa ds ! j = (calculate_score fa (ds ! j), j, ds ! j)"
  by (simp add: scored_detections_def nth_enumerate_eq)

lemma length_scored_detections [simp]: "length (scored_detections fa ds) = length ds"
  by (simp add: scored_detections_def)

lemma select_best_first_max:
  assumes "ds \<noteq> []"
  shows "\<exists>j. is_first_max (calculate_score fa) ds j \<and> select_best fa ds = Some (ds ! j)"
proof (cases ds)
  case Nil
  with assms show ?thesis by simp
next
  case (Cons d ds')
  show ?thesis
  proof (cases ds')
    case Nil
    with Cons show ?thesis by (auto simp: select_best_def is_first_max_def)
  next
    case (Cons d' ds'')
    let ?sc = "scored_detections fa ds"
    let ?k = "\<lambda>(s, idx, det). - s :: real"
    have ne: "?sc \<noteq> []" using assms by (metis length_0_conv length_scored_detections)
    from hd_sort_key_first_min [OF ne, of ?k]
    obtain j where j: "is_first_max (\<lambda>x. - ?k x) ?sc j" "hd (sort_key ?k ?sc) = ?sc ! j"
      by blast
    from j(1) have jl: "j < length ds" by (simp add: is_first_max_def)
    have key: "\<And>i. i < length ds \<Longrightarrow> - ?k (?sc ! i) = calculate_score fa (ds ! i)"
      by (simp add: scored_detections_nth)
    have fm: "is_first_max (calculate_score fa) ds j"
      unfolding is_first_max_def
    proof (intro conjI allI impI)
      show "j < length ds" by (rule jl)
    next
      fix i assume i: "i < length ds"
      with j(1) have "- ?k (?sc ! i) \<le> - ?k (?sc ! j)" by (simp add: is_first_max_def)
      with key [OF i] key [OF jl] show "calculate_score fa (ds ! i) \<le> calculate_score fa (ds ! j)"
        by simp
    next
      fix i assume i: "i < j"
      with j(1) have "- ?k (?sc ! i) < - ?k (?sc ! j)" by (simp add: is_first_max_def)
      moreover from i jl have "i < length ds" by simp
      ultimately show "calculate_score fa (ds ! i) < calculate_score fa (ds ! j)"
        using key [of i] key [OF jl] by simp
    qed
    have sne: "sort_key ?k ?sc \<noteq> []" using ne by (metis length_0_conv length_sort)
    then obtain h t where ht: "sort_key ?k ?sc = h # t" by (cases "sort_key ?k ?sc") auto
    with j(2) have "h = ?sc ! j" by simp
    then have h: "h = (calculate_score fa (ds ! j), j, ds ! j)"
      using jl by (simp add: scored_detections_nth)
    have "select_best fa ds = Some (ds ! j)"
      using \<open>ds = d # ds'\<close> \<open>ds' = d' # ds''\<close> ht h by (simp add: select_best_def)
    with fm show ?thesis by blast
  qed
qed


lemma pack_keyframes:
  "cs \<noteq> [] \<Longrightarrow> pid \<in> extract_people_ids cs \<Longrightarrow>
   \<exists>ev. pack fa cs = Some ev \<and> pid \<in> people ev \<and> keyframes ev pid = best_keyframe fa pid cs"
  by (cases cs) (simp_all add: pack_def Let_def select_keyframes_def)

text \<open>
  C3 (as the code has it). In Phase D, the keyframe of a person of the event is the
  first detection of that person, in scan order, that maximises the score the code
  computes in double precision, 100 if face + 50 if body + 10 * confidence +
  0.01 * bbox_area with every operation rounded, provided this score exceeds -1
  (otherwise there is no keyframe). Phase G selects from a non-empty group the first
  detection that maximises its own computed score, 10000 if face + 5000 if body +
  100 * confidence + bbox_area - 0.5 * distance of the box centre from (320, 240).
\<close>

theorem keyframe_selection_scores:
  assumes "cs \<noteq> []" and "pid \<in> extract_people_ids cs" and "ds \<noteq> []"
  shows "(\<exists>ev. pack fa cs = Some ev \<and> pid \<in> people ev
              \<and> keyframes ev pid = best_keyframe fa pid cs)
    \<and> (case best_keyframe fa pid cs of
          None \<Rightarrow> \<forall>x \<in> set (person_candidates pid cs). cand_score fa x \<le> - 1
        | Some k \<Rightarrow> \<exists>j. is_first_max (cand_score fa) (person_candidates pid cs) j
                       \<and> k = cand_keyframe (person_candidates pid cs ! j)
                       \<and> - 1 < cand_score fa (person_candidates pid cs ! j))
    \<and> (\<exists>j. is_first_max (calculate_score fa) ds j \<and> select_best fa ds = Some (ds ! j))"
  using pack_keyframes [OF assms(1,2), where fa = fa]
    best_keyframe_first_max [where fa = fa and pid = pid and cs = cs]
    select_best_first_max [OF assms(3), where fa = fa]
  by (intro conjI)

theorem keyframe_selection_scores_witness:
  "(\<exists>ev. pack ex_arith [kf_clip] = Some ev \<and> 1 \<in> people ev
         \<and> keyframes ev 1 = best_keyframe ex_arith 1 [kf_clip])
    \<and> (case best_keyframe ex_arith 1 [kf_clip] of
          None \<Rightarrow> \<forall>x \<in> set (person_candidates 1 [kf_clip]). cand_score ex_arith x \<le> - 1
        | Some k \<Rightarrow> \<exists>j. is_first_max (cand_score ex_arith) (person_candidates 1 [kf_clip]) j
                       \<and> k = cand_keyframe (person_candidates 1 [kf_clip] ! j)
                       \<and> - 1 < cand_score ex_arith (person_candidates 1 [kf_clip] ! j))
    \<and> (\<exists>j. is_first_max (calculate_score ex_arith) [small_sharp, wide_blurry] j
             \<and> select_best ex_arith [small_sharp, wide_blurry]
                 = Some ([small_sharp, wide_blurry] ! j))"
  by (rule keyframe_selection_scores)
    (simp_all add: extract_people_ids_def kf_clip_def small_sharp_def wide_blurry_def)

lemma ex_rnd_id:
  "x \<noteq> 1 / 100 \<Longrightarrow> x \<noteq> 6000 * double_001 \<Longrightarrow> x \<noteq> 6200 * double_001 \<Longrightarrow> ex_rnd x = x"
  by (simp add: ex_rnd_def)

lemma ex_arith_sel:
  "rnd ex_arith = ex_rnd" "fpow ex_arith x 2 = x\<^sup>2" "fpow ex_arith 0 (1 / 2) = 0"
  by (simp_all add: ex_arith_def)

text \<open>
  C3 as stated fails for Phase D: the keyframe loop weighs confidence ten times more,
  relative to area, than the stated score and has no centre term. Of the two example
  detections, whose boxes share their centre, Phase D computes 168.75 and 167 and keeps
  the first, while the stated score prefers the second wherever the frame centre lies,
  and so does Phase G, which computes 16087.5 and 16250.
\<close>

theorem keyframe_score_counterexample:
  "best_keyframe ex_arith 1 [kf_clip] = Some (keyframe_of kf_clip 0 small_sharp)
   \<and> person_candidates 1 [kf_clip] = [(kf_clip, 0, small_sharp), (kf_clip, 1, wide_blurry)]
   \<and> calculate_detection_score ex_arith small_sharp = 675 / 4
   \<and> calculate_detection_score ex_arith wide_blurry = 167
   \<and> (\<forall>centre. spec_keyframe_score centre small_sharp < spec_keyframe_score centre wide_blurry)
   \<and> calculate_score ex_arith small_sharp = 32175 / 2
   \<and> calculate_score ex_arith wide_blurry = 16250
   \<and> select_best ex_arith [small_sharp, wide_blurry] = Some wide_blurry"
proof -
  have a: "calculate_detection_score ex_arith small_sharp = 675 / 4"
    by (simp add: calculate_detection_score_def small_sharp_def method_of_def confidence_of_def
        ex_arith_def ex_rnd_def double_001_def Let_def)
  have b: "calculate_detection_score ex_arith wide_blurry = 167"
    by (simp add: calculate_detection_score_def wide_blurry_def method_of_def confidence_of_def
        ex_arith_def ex_rnd_def double_001_def Let_def)
  have ps: "person_id small_sharp = Some 1" "person_id wide_blurry = Some 1"
    by (simp_all add: small_sharp_def wide_blurry_def)
  have k: "best_keyframe ex_arith 1 [kf_clip] = Some (keyframe_of kf_clip 0 small_sharp)"
    by (simp add: best_keyframe_def kf_clip_def [symmetric] keyframe_step_def a b ps Let_def)
       (simp add: kf_clip_def keyframe_step_def a b ps Let_def)
  have c: "person_candidates 1 [kf_clip] = [(kf_clip, 0, small_sharp), (kf_clip, 1, wide_blurry)]"
    by (simp add: person_candidates_def clip_candidates_def ps)
       (simp add: kf_clip_def ps)
  have d: "\<forall>centre. spec_keyframe_score centre small_sharp < spec_keyframe_score centre wide_blurry"
    by (simp add: spec_keyframe_score_def small_sharp_def wide_blurry_def method_of_def
        confidence_of_def)
  have e: "calculate_score ex_arith small_sharp = 32175 / 2"
    by (simp add: calculate_score_def small_sharp_def method_of_def confidence_of_def
        ex_arith_sel ex_rnd_id double_001_def Let_def)
  have f: "calculate_score ex_arith wide_blurry = 16250"
    by (simp add: calculate_score_def wide_blurry_def method_of_def confidence_of_def
        ex_arith_sel ex_rnd_id double_001_def Let_def)
  have g: "select_best ex_arith [small_sharp, wide_blurry] = Some wide_blurry"
    by (simp add: select_best_def scored_detections_def e f enumerate_eq_zip Let_def)
  from k c a b d e f g show ?thesis by simp
qed

subsection \<open>Identity refiner\<close>

lemma family_fixed:
  assumes "role p = Some ''family''"
  shows "rule1 st p = p" "rule2 st p = p" "rule3 fs p = p"
  using assms by (simp_all add: rule1_def rule2_def rule3_def role_of_def)

lemma length_refine_person_at [simp]: "length (refine_person_at st fs i) = length fs"
  by (simp add: refine_person_at_def Let_def)

lemma refine_person_at_other: "k \<noteq> i \<Longrightarrow> refine_person_at st fs i ! k = fs ! k"
  by (simp add: refine_person_at_def Let_def)

lemma refine_person_at_family:
  assumes "k < length fs" "role (fs ! k) = Some ''family''"
  shows "role (refine_person_at st fs i ! k) = Some ''family''"
proof (cases "k = i")
  case True
  with assms show ?thesis
    by (simp add: refine_person_at_def Let_def family_fixed)
next
  case False
  with assms show ?thesis by (simp add: refine_person_at_other)
qed

lemma refine_person_at_self:
  assumes "i < length fs" "k < length fs" "role (fs ! k) = Some ''family''"
  shows "refine_person_at st fs i ! i = promote_in_family_frame st (fs ! i)"
proof (cases "k = i")
  case True
  with assms show ?thesis
    by (simp add: refine_person_at_def promote_in_family_frame_def Let_def family_fixed role_of_def)
next
  case False
  let ?p2 = "rule2 st (rule1 st (fs ! i))"
  have "fs[i := ?p2] ! k = fs ! k" using False by simp
  then have "\<exists>q \<in> set (fs[i := ?p2]). role q = Some ''family''"
    using assms(2,3) by (metis length_list_update nth_mem)
  then have "list_ex (\<lambda>p. role p = Some ''family'') (fs[i := ?p2])"
    by (simp add: list_ex_iff)
  then show ?thesis using assms(1)
    by (simp add: refine_person_at_def promote_in_family_frame_def Let_def rule3_def)
qed

lemma refine_frame_loop_length [simp]: "length (refine_frame_loop st js fs) = length fs"
  by (induction js arbitrary: fs) simp_all

lemma refine_frame_loop_untouched:
  "i \<notin> set js \<Longrightarrow> refine_frame_loop st js fs ! i = fs ! i"
  by (induction js arbitrary: fs) (simp_all add: refine_person_at_other)

lemma refine_frame_loop_promotes:
  assumes "distinct js" "\<forall>j \<in> set js. j < length fs" "i \<in> set js"
    and "k < length fs" "role (fs ! k) = Some ''family''"
  shows "refine_frame_loop st js fs ! i = promote_in_family_frame st (fs ! i)"
  using assms
proof (induction js arbitrary: fs)
  case Nil
  then show ?case by simp
next
  case (Cons j js)
  let ?fs' = "refine_person_at st fs j"
  have fam: "role (?fs' ! k) = Some ''family''"
    using Cons.prems(4,5) by (rule refine_person_at_family)
  show ?case
  proof (cases "i = j")
    case True
    then have "i \<notin> set js" using Cons.prems(1) by simp
    then have "refine_frame_loop st (j # js) fs ! i = ?fs' ! i"
      by (simp add: refine_frame_loop_untouched)
    also have "\<dots> = promote_in_family_frame st (fs ! i)"
      using True Cons.prems(2,4,5) by (simp add: refine_person_at_self)
    finally show ?thesis .
  next
    case False
    with Cons.prems have "i \<in> set js" "distinct js" "\<forall>j \<in> set js. j < length ?fs'"
      "k < length ?fs'" by auto
    from Cons.IH [OF this(2,3,1,4) fam] False show ?thesis
      by (simp add: refine_person_at_other)
  qed
qed

lemma refine_frame_promotes:
  assumes "i < length fs" "q \<in> set fs" "role q = Some ''family''"
  shows "refine_frame st fs ! i = promote_in_family_frame st (fs ! i)"
proof -
  from assms(2,3) obtain k where k: "k < length fs" "role (fs ! k) = Some ''family''"
    by (metis in_set_conv_nth)
  show ?thesis
    unfolding refine_frame_def
    by (rule refine_frame_loop_promotes [OF _ _ _ k]) (use assms(1) in simp_all)
qed

lemma rule1_fires:
  assumes "role_of p = ''suspected_family''" "truthy_id (person_id p)"
    and "map_of st (person_id p) = Some s" "appearances s \<ge> 3"
  shows "rule1 st p = p\<lparr>role := Some ''family'', det_method := Some ''refined_from_suspected''\<rparr>"
  using assms by (simp add: rule1_def)

lemma rule1_idle:
  assumes "\<not> (role_of p = ''suspected_family''
              \<and> (\<exists>s. map_of st (person_id p) = Some s \<and> appearances s \<ge> 3))"
  shows "rule1 st p = p"
  using assms by (cases "map_of st (person_id p)") (auto simp: rule1_def)

lemma rule2_idle: "person_id p \<noteq> None \<Longrightarrow> rule2 st p = p"
  unfolding rule2_def by (cases "person_id p") simp_all

lemma promote_with_id:
  assumes "role_of p \<in> {''suspected_family'', ''stranger''}" and "truthy_id (person_id p)"
  shows "promote_in_family_frame st p =
     p\<lparr>role := Some ''family'',
       det_method := Some (if role_of p = ''suspected_family''
                 \<and> (\<exists>s. map_of st (person_id p) = Some s \<and> appearances s \<ge> 3)
              then ''refined_from_suspected'' else ''refined_from_context'')\<rparr>"
proof -
  from assms(2) have nn: "person_id p \<noteq> None"
    by (auto simp: truthy_id_def split: option.splits)
  show ?thesis
  proof (cases "role_of p = ''suspected_family''
                 \<and> (\<exists>s. map_of st (person_id p) = Some s \<and> appearances s \<ge> 3)")
    case True
    then obtain s where s: "map_of st (person_id p) = Some s" "appearances s \<ge> 3" by blast
    let ?p1 = "p\<lparr>role := Some ''family'', det_method := Some ''refined_from_suspected''\<rparr>"
    have r1: "rule1 st p = ?p1" using True assms(2) s by (simp add: rule1_fires)
    have r2: "rule2 st ?p1 = ?p1" using nn by (simp add: rule2_idle)
    have "role_of ?p1 = ''family''" by (simp add: role_of_def)
    then show ?thesis using True
      by (simp add: promote_in_family_frame_def r1 r2 Let_def)
  next
    case False
    have r1: "rule1 st p = p" using False by (rule rule1_idle)
    have r2: "rule2 st p = p" using nn by (rule rule2_idle)
    show ?thesis using False assms
      by (simp add: promote_in_family_frame_def r1 r2 Let_def del: ex_simps)
  qed
qed

text \<open>
  C4 (as the code has it). In the Phase E identity refiner, a detection resolved as
  suspected_family or stranger that carries a non-null, non-zero person id and stands in
  the same per-frame detection list as a family detection leaves the refiner with role
  family; its method is refined_from_context, unless rule 1 has already promoted it (a
  suspected_family person seen at least three times in the event), in which case the
  method is refined_from_suspected.
\<close>

theorem context_promotion:
  assumes "fi < length (people_detected c)"
    and "i < length (people_detected c ! fi)"
    and "role_of (people_detected c ! fi ! i) \<in> {''suspected_family'', ''stranger''}"
    and "truthy_id (person_id (people_detected c ! fi ! i))"
    and "\<exists>q \<in> set (people_detected c ! fi). role q = Some ''family''"
  shows "role (people_detected (refine_clip_identities c st) ! fi ! i) = Some ''family''
    \<and> det_method (people_detected (refine_clip_identities c st) ! fi ! i) =
        Some (if role_of (people_detected c ! fi ! i) = ''suspected_family''
                 \<and> (\<exists>s. map_of st (person_id (people_detected c ! fi ! i)) = Some s \<and> appearances s \<ge> 3)
              then ''refined_from_suspected'' else ''refined_from_context'')"
proof -
  let ?p = "people_detected c ! fi ! i"
  from assms(5) obtain q where q: "q \<in> set (people_detected c ! fi)" "role q = Some ''family''"
    by blast
  have "people_detected (refine_clip_identities c st) ! fi ! i
          = refine_frame st (people_detected c ! fi) ! i"
    using assms(1) by (simp add: refine_clip_identities_def)
  also have "\<dots> = promote_in_family_frame st ?p"
    using assms(2) q by (rule refine_frame_promotes)
  finally have eq: "people_detected (refine_clip_identities c st) ! fi ! i
          = promote_in_family_frame st ?p" .
  show ?thesis
    unfolding eq promote_with_id [OF assms(3,4)] by simp
qed

theorem context_promotion_witness:
  "role (people_detected
           (refine_clip_identities suspect_clip (analyze_person_appearances [suspect_clip])) ! 0 ! 1)
     = Some ''family''
   \<and> det_method (people_detected
           (refine_clip_identities suspect_clip (analyze_person_appearances [suspect_clip])) ! 0 ! 1)
     = Some ''refined_from_context''"
  using context_promotion [of 0 suspect_clip 1 "analyze_person_appearances [suspect_clip]"]
  by (simp add: suspect_clip_def ex_family_def ex_suspected_def role_of_def truthy_id_def
      analyze_person_appearances_def)

text \<open>
  C4 as stated fails: rule 3 promotes only a detection with a truthy person id, and the
  arbiter gives a stranger no person id. In an event of one clip whose single frame
  shows family member 1 next to an unresolved stranger, the refiner leaves the stranger
  as it was.
\<close>

theorem context_promotion_counterexample:
  "map_option (\<lambda>e. map people_detected (clips (refine_event_identities e))) (pack ex_arith [mixed_clip 0 1])
    = Some [[[ex_family 1, ex_stranger]]]"
  by (simp add: pack_def mixed_clip_def refine_event_identities_def Let_def
      refine_clip_identities_def analyze_person_appearances_def refine_frame_def
      refine_person_at_def rule1_def rule2_def rule3_def ex_family_def ex_stranger_def
      role_of_def truthy_id_def)

subsection \<open>Order of the events of Phase D\<close>

lemma group_loop_concat:
  "group_loop pol cs (evs, buf) = (evs', buf') \<Longrightarrow> concat evs' @ buf' = concat evs @ buf @ cs"
proof (induction cs arbitrary: evs buf)
  case Nil
  then show ?case by simp
next
  case (Cons c cs)
  then show ?case
    by (auto simp: process_clip_def split: if_splits)
qed

lemma group_loop_nonempty:
  "group_loop pol cs (evs, buf) = (evs', buf') \<Longrightarrow> [] \<notin> set evs \<Longrightarrow> [] \<notin> set evs'"
proof (induction cs arbitrary: evs buf)
  case Nil
  then show ?case by simp
next
  case (Cons c cs)
  then show ?case
    by (auto simp: process_clip_def split: if_splits)
qed

lemma group_events_concat: "concat (group_events pol cs) = cs"
proof -
  obtain evs buf where g: "group_loop pol cs ([], []) = (evs, buf)"
    by (cases "group_loop pol cs ([], [])")
  from group_loop_concat [OF g] show ?thesis
    by (auto simp: group_events_def g finalize_def)
qed

lemma group_events_nonempty: "[] \<notin> set (group_events pol cs)"
proof -
  obtain evs buf where g: "group_loop pol cs ([], []) = (evs, buf)"
    by (cases "group_loop pol cs ([], [])")
  from group_loop_nonempty [OF g] show ?thesis
    by (auto simp: group_events_def g finalize_def)
qed

lemma sorted_groups_successive:
  "sorted (map f (concat gs)) \<Longrightarrow> [] \<notin> set gs \<Longrightarrow>
   successively (\<lambda>g1 g2. f (last g1) \<le> f (hd g2)) gs"
proof (induction gs rule: induct_list012)
  case 1
  show ?case by simp
next
  case (2 g)
  show ?case by simp
next
  case (3 g1 g2 gs)
  from 3(3) have s: "sorted (map f (concat (g2 # gs)))"
    by (simp add: sorted_append)
  from 3(4) have ne: "g1 \<noteq> []" "g2 \<noteq> []" "[] \<notin> set (g2 # gs)"
    by auto
  have "f (last g1) \<le> f (hd g2)"
    using 3(3) ne by (auto simp: sorted_append)
  with 3(2) [OF s ne(3)] show ?case by simp
qed

lemma pack_times:
  "g \<noteq> [] \<Longrightarrow> \<exists>e. pack fa g = Some e \<and> start_time e = time (hd g) \<and> end_time e = time (last g)
     \<and> clips e = g"
  by (cases g) (simp_all add: pack_def Let_def)

lemma refine_clip_time [simp]: "time (refine_clip_identities c st) = time c"
  by (simp add: refine_clip_identities_def)

lemma refine_event_times:
  "start_time (refine_event_identities e) = start_time e"
  "end_time (refine_event_identities e) = end_time e"
  "map time (clips (refine_event_identities e)) = map time (clips e)"
  by (simp_all add: refine_event_identities_def Let_def)

lemma aggregate_events_map:
  "[] \<notin> set gs \<Longrightarrow>
   aggregate_events fa gs = map (\<lambda>g. refine_event_identities (the (pack fa g))) gs"
proof (induction gs)
  case Nil
  show ?case by simp
next
  case (Cons g gs)
  then have "g \<noteq> []" by auto
  from pack_times [OF this, of fa] obtain e where "pack fa g = Some e" by blast
  with Cons show ?case by simp
qed

lemma event_times_ok_aggregate:
  "g \<noteq> [] \<Longrightarrow> event_times_ok (refine_event_identities (the (pack fa g)))"
proof -
  assume ne: "g \<noteq> []"
  from pack_times [OF ne, of fa] obtain e where e: "pack fa g = Some e" "start_time e = time (hd g)"
    "end_time e = time (last g)" "clips e = g" by blast
  let ?r = "refine_event_identities e"
  have m: "map time (clips ?r) = map time g" using refine_event_times(3) [of e] e by simp
  then have ne': "clips ?r \<noteq> []" using ne by auto
  have h: "time (hd (clips ?r)) = time (hd g)"
    using m ne ne' by (metis list.map_sel(1))
  have l: "time (last (clips ?r)) = time (last g)"
    using m ne ne' by (metis last_map)
  show ?thesis using ne' h l e
    by (cases "clips ?r") (simp_all add: event_times_ok_def refine_event_times)
qed

text \<open>
  C5. For every list of input clips, adjacent events of the output of the fusion
  pipeline satisfy end-time(E1) \<le> start-time(E2), and every event starts at the time of
  its first clip and ends at the time of its last clip.
\<close>

theorem adjacent_events_ordered:
  "successively (\<lambda>e1 e2. end_time e1 \<le> start_time e2) (run fa pol raw_clips)
   \<and> list_all event_times_ok (run fa pol raw_clips)"
proof -
  let ?s = "sort_and_validate raw_clips"
  let ?gs = "group_events pol ?s"
  have srt: "sorted (map time ?s)"
    by (simp add: sort_and_validate_def)
  have c: "concat ?gs = ?s" by (rule group_events_concat)
  have ne: "[] \<notin> set ?gs" by (rule group_events_nonempty)
  have "successively (\<lambda>g1 g2. time (last g1) \<le> time (hd g2)) ?gs"
    using sorted_groups_successive [of time ?gs] srt c ne by simp
  then have "successively (\<lambda>g1 g2. end_time (refine_event_identities (the (pack fa g1)))
                 \<le> start_time (refine_event_identities (the (pack fa g2)))) ?gs"
  proof (rule successively_mono)
    fix g1 g2 assume "g1 \<in> set ?gs" "g2 \<in> set ?gs" "time (last g1) \<le> time (hd g2)"
    moreover from this ne have "g1 \<noteq> []" "g2 \<noteq> []" by auto
    ultimately show "end_time (refine_event_identities (the (pack fa g1)))
                 \<le> start_time (refine_event_identities (the (pack fa g2)))"
      using pack_times [of g1 fa] pack_times [of g2 fa] by (auto simp: refine_event_times)
  qed
  then have 1: "successively (\<lambda>e1 e2. end_time e1 \<le> start_time e2) (aggregate_events fa ?gs)"
    by (simp add: aggregate_events_map [OF ne] successively_map)
  have 2: "list_all event_times_ok (aggregate_events fa ?gs)"
    using ne by (auto simp: aggregate_events_map [OF ne] list_all_iff intro!: event_times_ok_aggregate)
  show ?thesis using 1 2
    by (simp add: run_def Let_def)
qed

theorem adjacent_events_ordered_witness:
  "successively (\<lambda>e1 e2. end_time e1 \<le> start_time e2)
     (run ex_arith default_policy [ex_raw 120, ex_raw 0, ex_raw 30])
   \<and> map (\<lambda>e. (start_time e, end_time e, clip_count e))
       (run ex_arith default_policy [ex_raw 120, ex_raw 0, ex_raw 30]) = [(0, 30, 2), (120, 120, 1)]"
proof -
  have a: "successively (\<lambda>e1 e2. end_time e1 \<le> start_time e2)
     (run ex_arith default_policy [ex_raw 120, ex_raw 0, ex_raw 30])"
    by (rule adjacent_events_ordered [THEN conjunct1])
  have b: "map (\<lambda>e. (start_time e, end_time e, clip_count e))
       (run ex_arith default_policy [ex_raw 120, ex_raw 0, ex_raw 30]) = [(0, 30, 2), (120, 120, 1)]"
    by (simp add: run_def sort_and_validate_def ex_raw_def group_events_def process_clip_def
        finalize_def is_connected_def check_time_rule_def check_identity_rule_def
        extract_people_set_def scan_person_def ex_family_def role_of_def default_policy_def
        pack_def refine_event_identities_def Let_def)
  from a b show ?thesis by (rule conjI)
qed

subsection \<open>Daily summary\<close>

lemma find_Some_date:
  "find (\<lambda>r. summary_date r = d) rows = Some row \<Longrightarrow> row \<in> set rows \<and> summary_date row = d"
  by (auto simp: find_Some_iff)

lemma find_None_date:
  "find (\<lambda>r. summary_date r = d) rows = None \<Longrightarrow> d \<notin> summary_date ` set rows"
  by (auto simp: find_None_iff)

lemma map_date_update:
  "map summary_date (map (\<lambda>r. if summary_date r = d then r\<lparr>summary_text := t, total_events := n, updated_at := u\<rparr> else r) rows)
     = map summary_date rows"
  by (induction rows) simp_all

lemma map_date_update_comp:
  "map (summary_date \<circ> (\<lambda>r. if summary_date r = d then r\<lparr>summary_text := t, total_events := n, updated_at := u\<rparr> else r)) rows
     = map summary_date rows"
  by (induction rows) simp_all

lemma events_on_save [simp]:
  "events_on date_of (snd (save env s d text n)) d' = events_on date_of s d'"
  by (simp add: save_def events_on_def split: option.splits)

lemma save_one_per_date:
  assumes "one_per_date s"
  shows "one_per_date (snd (save env s d text n))"
proof (cases "save_fails env")
  case True
  with assms show ?thesis by (simp add: save_def)
next
  case False
  show ?thesis
  proof (cases "find (\<lambda>r. summary_date r = d) (daily_summaries s)")
    case None
    then have "d \<notin> summary_date ` set (daily_summaries s)" by (rule find_None_date)
    with assms False None show ?thesis
      by (simp add: save_def one_per_date_def)
  next
    case (Some row)
    with assms False show ?thesis
      by (simp add: save_def one_per_date_def map_date_update_comp)
  qed
qed

lemma generate_and_save_one_per_date:
  assumes "one_per_date s"
  shows "one_per_date (snd (generate_and_save date_of env s d))"
proof (cases "fetch_fails env \<or> events_on date_of s d = []")
  case True
  with assms show ?thesis by (auto simp: generate_and_save_def fetch_events_def)
next
  case False
  let ?sv = "save env s d (analyze env (format_timeline env (events_on date_of s d)) d)
               (length (events_on date_of s d))"
  have "one_per_date (snd ?sv)" using assms by (rule save_one_per_date)
  moreover have "snd (generate_and_save date_of env s d) = snd ?sv"
    using False
    by (cases ?sv; cases "fst ?sv")
       (auto simp: generate_and_save_def fetch_events_def Let_def)
  ultimately show ?thesis by simp
qed

lemma run_for_date_one_per_date:
  assumes "one_per_date s"
  shows "one_per_date (snd (run_for_date date_of env s d force))"
  using assms generate_and_save_one_per_date [OF assms, of date_of env d]
  by (auto simp: run_for_date_def get_summary_def split: option.splits)

lemma second_run_unforced:
  assumes "find (\<lambda>r. summary_date r = d) (daily_summaries s) = Some row" and "\<not> get_fails env"
  shows "run_for_date date_of env s d False = (Inr (Some (ds_id row)), s)"
  using assms by (simp add: run_for_date_def get_summary_def)

lemma forced_run_no_events:
  assumes "\<not> fetch_fails env" and "events_on date_of s d = []"
  shows "run_for_date date_of env s d True = (Inr None, s)"
  using assms by (simp add: run_for_date_def generate_and_save_def fetch_events_def)

lemma second_run_forced:
  assumes ok: "one_per_date s"
    and row: "find (\<lambda>r. summary_date r = d) (daily_summaries s) = Some row"
    and nf: "\<not> fetch_fails env" "\<not> save_fails env"
    and ne: "events_on date_of s d \<noteq> []"
  shows "\<exists>s'. run_for_date date_of env s d True = (Inr (Some (ds_id row)), s')
           \<and> event_logs s' = event_logs s
           \<and> map summary_date (daily_summaries s') = map summary_date (daily_summaries s)
           \<and> (\<forall>r \<in> set (daily_summaries s').
                 summary_date r = d \<longrightarrow> ds_id r = ds_id row \<and> total_events r = length (events_on date_of s d))"
proof -
  from row have mem: "row \<in> set (daily_summaries s)" "summary_date row = d"
    using find_Some_date by fastforce+
  from ok have dist: "distinct (map summary_date (daily_summaries s))" by (simp add: one_per_date_def)
  then have inj: "inj_on summary_date (set (daily_summaries s))" by (simp add: distinct_map)
  have uniq: "r = row" if "r \<in> set (daily_summaries s)" "summary_date r = d" for r
    using inj_onD [OF inj _ that(1) mem(1)] that(2) mem(2) by simp
  let ?n = "length (events_on date_of s d)"
  let ?t = "analyze env (format_timeline env (events_on date_of s d)) d"
  let ?upd = "\<lambda>r. if summary_date r = d
                   then r\<lparr>summary_text := ?t, total_events := ?n, updated_at := now env\<rparr> else r"
  let ?s' = "s\<lparr>daily_summaries := map ?upd (daily_summaries s),
               summary_id_seq := summary_id_seq s + 1\<rparr>"
  have run: "run_for_date date_of env s d True = (Inr (Some (ds_id row)), ?s')"
    using ne nf row
    by (simp add: run_for_date_def generate_and_save_def fetch_events_def save_def Let_def)
  have rows: "\<forall>r \<in> set (daily_summaries ?s').
                 summary_date r = d \<longrightarrow> ds_id r = ds_id row \<and> total_events r = ?n"
  proof (intro ballI impI)
    fix r assume r: "r \<in> set (daily_summaries ?s')" "summary_date r = d"
    then obtain r0 where r0: "r0 \<in> set (daily_summaries s)" "r = ?upd r0" by auto
    with r(2) have "summary_date r0 = d" by (auto split: if_splits)
    with uniq [OF r0(1)] have "r0 = row" by simp
    with r0(2) mem(2) show "ds_id r = ds_id row \<and> total_events r = ?n" by simp
  qed
  have "event_logs ?s' = event_logs s" by simp
  moreover have "map summary_date (daily_summaries ?s') = map summary_date (daily_summaries s)"
    by (simp add: map_date_update_comp)
  ultimately show ?thesis using run rows by blast
qed

lemma ex_store_one_per_date: "one_per_date ex_store"
  by (simp add: one_per_date_def ex_store_def)

lemma stale_store_one_per_date: "one_per_date stale_store"
  by (simp add: one_per_date_def stale_store_def)

lemma ex_store_row:
  "find (\<lambda>r. summary_date r = ''2025-09-01'') (daily_summaries ex_store)
     = Some \<lparr>ds_id = 1, summary_date = ''2025-09-01'', summary_text = ''old'',
             total_events = 1, created_at = 40000, updated_at = 40000\<rparr>"
  by (simp add: ex_store_def)

lemma stale_store_row:
  "find (\<lambda>r. summary_date r = ''2025-09-01'') (daily_summaries stale_store)
     = Some \<lparr>ds_id = 1, summary_date = ''2025-09-01'', summary_text = ''old'',
             total_events = 1, created_at = 40000, updated_at = 40000\<rparr>"
  by (simp add: stale_store_def)

lemma ex_store_events: "length (events_on ex_date_of ex_store ''2025-09-01'') = 2"
  by (simp add: ex_store_def events_on_def ex_date_of_def)

lemma stale_store_events: "events_on ex_date_of stale_store ''2025-09-01'' = []"
  by (simp add: stale_store_def events_on_def)

text \<open>
  C7 (as the code has it). Daily summarisation keeps at most one summary row per date.
  When a summary of the date exists already and the database calls succeed, a run with
  force=false returns its id and leaves the store exactly as it was. A run with
  force=true depends on the events stored for the date: when there is at least one, it
  returns the same id and rewrites that row, the only one of its date, so that
  total_events is the number of those events; when there is none, it returns no id and
  leaves the store, and with it the old total_events, exactly as it was.
\<close>

theorem daily_summary_upsert:
  assumes "one_per_date s"
  shows "one_per_date (snd (run_for_date date_of env s d force))
    \<and> (\<forall>row. find (\<lambda>r. summary_date r = d) (daily_summaries s) = Some row \<longrightarrow>
          (\<not> get_fails env \<longrightarrow> run_for_date date_of env s d False = (Inr (Some (ds_id row)), s))
        \<and> (\<not> fetch_fails env \<and> events_on date_of s d = [] \<longrightarrow>
             run_for_date date_of env s d True = (Inr None, s))
        \<and> (\<not> fetch_fails env \<and> \<not> save_fails env \<and> events_on date_of s d \<noteq> [] \<longrightarrow>
             (\<exists>s'. run_for_date date_of env s d True = (Inr (Some (ds_id row)), s')
                \<and> event_logs s' = event_logs s
                \<and> map summary_date (daily_summaries s') = map summary_date (daily_summaries s)
                \<and> (\<forall>r \<in> set (daily_summaries s').
                      summary_date r = d \<longrightarrow>
                        ds_id r = ds_id row \<and> total_events r = length (events_on date_of s d)))))"
proof (intro conjI allI impI)
  show "one_per_date (snd (run_for_date date_of env s d force))"
    using assms by (rule run_for_date_one_per_date)
next
  fix row
  assume "find (\<lambda>r. summary_date r = d) (daily_summaries s) = Some row" and "\<not> get_fails env"
  then show "run_for_date date_of env s d False = (Inr (Some (ds_id row)), s)"
    by (rule second_run_unforced)
next
  fix row
  assume "\<not> fetch_fails env \<and> events_on date_of s d = []"
  then show "run_for_date date_of env s d True = (Inr None, s)"
    by (simp add: forced_run_no_events)
next
  fix row
  assume row: "find (\<lambda>r. summary_date r = d) (daily_summaries s) = Some row"
    and h: "\<not> fetch_fails env \<and> \<not> save_fails env \<and> events_on date_of s d \<noteq> []"
  from h have nf: "\<not> fetch_fails env" "\<not> save_fails env" and ne: "events_on date_of s d \<noteq> []"
    by simp_all
  show "\<exists>s'. run_for_date date_of env s d True = (Inr (Some (ds_id row)), s')
           \<and> event_logs s' = event_logs s
           \<and> map summary_date (daily_summaries s') = map summary_date (daily_summaries s)
           \<and> (\<forall>r \<in> set (daily_summaries s').
                 summary_date r = d \<longrightarrow> ds_id r = ds_id row \<and> total_events r = length (events_on date_of s d))"
    by (rule second_run_forced [OF assms row nf ne])
qed

theorem daily_summary_upsert_witness:
  "run_for_date ex_date_of ex_run_env ex_store ''2025-09-01'' False = (Inr (Some 1), ex_store)
   \<and> (\<exists>s'. run_for_date ex_date_of ex_run_env ex_store ''2025-09-01'' True = (Inr (Some 1), s')
          \<and> (\<forall>r \<in> set (daily_summaries s').
                summary_date r = ''2025-09-01'' \<longrightarrow> ds_id r = 1 \<and> total_events r = 2))
   \<and> run_for_date ex_date_of ex_run_env stale_store ''2025-09-01'' True = (Inr None, stale_store)"
proof -
  note t = daily_summary_upsert [OF ex_store_one_per_date, of ex_date_of ex_run_env
      "''2025-09-01''" False, THEN conjunct2, THEN spec, THEN mp, OF ex_store_row]
  from t have a: "run_for_date ex_date_of ex_run_env ex_store ''2025-09-01'' False
      = (Inr (Some 1), ex_store)"
    by (simp add: ex_run_env_def)
  have nf: "\<not> fetch_fails ex_run_env \<and> \<not> save_fails ex_run_env
      \<and> events_on ex_date_of ex_store ''2025-09-01'' \<noteq> []"
    using ex_store_events by (auto simp: ex_run_env_def)
  from t [THEN conjunct2, THEN conjunct2, THEN mp, OF nf] obtain s' where
    s': "run_for_date ex_date_of ex_run_env ex_store ''2025-09-01'' True = (Inr (Some 1), s')"
    "\<forall>r \<in> set (daily_summaries s'). summary_date r = ''2025-09-01'' \<longrightarrow>
        ds_id r = 1 \<and> total_events r = length (events_on ex_date_of ex_store ''2025-09-01'')"
    by auto
  from s'(2) have "\<forall>r \<in> set (daily_summaries s'). summary_date r = ''2025-09-01'' \<longrightarrow>
        ds_id r = 1 \<and> total_events r = 2"
    by (simp only: ex_store_events)
  with a s'(1) have b: "\<exists>s'. run_for_date ex_date_of ex_run_env ex_store ''2025-09-01'' True
        = (Inr (Some 1), s')
      \<and> (\<forall>r \<in> set (daily_summaries s').
            summary_date r = ''2025-09-01'' \<longrightarrow> ds_id r = 1 \<and> total_events r = 2)"
    by blast
  note u = daily_summary_upsert [OF stale_store_one_per_date, of ex_date_of ex_run_env
      "''2025-09-01''" True, THEN conjunct2, THEN spec, THEN mp, OF stale_store_row]
  have ne: "\<not> fetch_fails ex_run_env \<and> events_on ex_date_of stale_store ''2025-09-01'' = []"
    using stale_store_events by (simp add: ex_run_env_def)
  from u [THEN conjunct2, THEN conjunct1, THEN mp, OF ne]
  have c: "run_for_date ex_date_of ex_run_env stale_store ''2025-09-01'' True
      = (Inr None, stale_store)" .
  from a b c show ?thesis by blast
qed

text \<open>
  C7 as stated fails on the overwrite with force=true: the run returns before the save
  when the date has no stored event. On a store whose summary of 1 September counts one
  event while no event of that date is stored, the forced run returns no id and leaves
  the row as it was, so its total_events stays 1 against an event count of 0.
\<close>

theorem daily_summary_counterexample:
  "one_per_date stale_store
   \<and> length (events_on ex_date_of stale_store ''2025-09-01'') = 0
   \<and> run_for_date ex_date_of ex_run_env stale_store ''2025-09-01'' True = (Inr None, stale_store)
   \<and> map (\<lambda>r. (summary_date r, total_events r))
        (daily_summaries (snd (run_for_date ex_date_of ex_run_env stale_store ''2025-09-01'' True)))
       = [(''2025-09-01'', 1)]"
proof -
  have e: "events_on ex_date_of stale_store ''2025-09-01'' = []"
    by (simp add: stale_store_def events_on_def)
  have r: "run_for_date ex_date_of ex_run_env stale_store ''2025-09-01'' True
      = (Inr None, stale_store)"
    by (simp add: run_for_date_def generate_and_save_def fetch_events_def e ex_run_env_def)
  have o: "one_per_date stale_store"
    by (simp add: one_per_date_def stale_store_def)
  have m: "map (\<lambda>r. (summary_date r, total_events r)) (daily_summaries stale_store)
      = [(''2025-09-01'', 1)]"
    by (simp add: stale_store_def)
  from e r o m show ?thesis by simp
qed

subsection \<open>Answer on zero evidence\<close>

text \<open>
  C8. When retrieval for the parsed question yields no record, the answer operation
  returns the fixed no-records message with evidence count 0 and no images, and no
  prompt is submitted to the LLM gateway.
\<close>

theorem no_records_answer:
  assumes "retrieve env (parse env user_query) = []"
  shows "answer env user_query =
           (\<lparr>answer_text = no_result_message, evidence_count = 0, has_images = False, images = [],
             query_obj = parse env user_query, retrieved_records = []\<rparr>, [])"
  using assms
  by (simp add: answer_def generate_no_result_answer_def rag_answer.defs full_answer.defs)

theorem no_records_answer_witness:
  "answer empty_store_env ''what happened on September 1st?'' =
           (\<lparr>answer_text = no_result_message, evidence_count = 0, has_images = False, images = [],
             query_obj = (), retrieved_records = []\<rparr>, [])"
  using no_records_answer [of empty_store_env "''what happened on September 1st?''"]
  by (simp add: empty_store_env_def)

subsection \<open>Persister\<close>


text \<open>
  C10. When the representative detection of a group carries the arbiter's method
  \<^verbatim>\<open>soft_match\<close> (and a body vector of the stored dimension), the persister writes the
  appearance with match method \<^verbatim>\<open>unknown\<close>: the normalisation chain knows face, body,
  new and the three refined methods only.
\<close>

theorem soft_match_stored_as_unknown:
  assumes "select_best fa dets = Some d"
    and "det_method d = Some ''soft_match''"
    and "body_embedding d = Some v"
    and "length v = 2048"
  shows "appearance_row fa eid pid dets =
           Some \<lparr>app_event_id = eid, app_person_id = pid, match_method = ''unknown'',
                 body_embedding_pgvector = v\<rparr>"
  using assms
  by (simp add: appearance_row_def to_pgvector_body_def BODY_DIM_def
      standardize_match_method_def method_of_def)

theorem soft_match_stored_as_unknown_witness:
  "appearance_row ex_arith 7 (1::int)
     [\<lparr>person_id = Some 1, role = Some ''suspected_family'', det_method = Some ''soft_match'',
       confidence = Some (9/10), bbox = Some (0, 0, 100, 200),
       body_embedding = Some (replicate 2048 0)\<rparr>]
   = Some \<lparr>app_event_id = 7, app_person_id = 1, match_method = ''unknown'',
           body_embedding_pgvector = replicate 2048 0\<rparr>"
  by (rule soft_match_stored_as_unknown [where d = "\<lparr>person_id = Some 1,
        role = Some ''suspected_family'', det_method = Some ''soft_match'',
        confidence = Some (9/10), bbox = Some (0, 0, 100, 200),
        body_embedding = Some (replicate 2048 0)\<rparr>"])
     (simp_all add: select_best_def)

end
